theory Spec2Isabelle
  imports Main "HOL-Library.Word"
begin

unbundle bit_operations_syntax

section \<open>The chunk composer (pkg/rtmp/chunk\_composer.go)\<close>

type_synonym byte = "8 word"
type_synonym u32 = "32 word"

subsection \<open>Constants and types declared outside chunk\_composer.go\<close>

text \<open>Modelled from the spec: the constant \<open>defaultChunkSize\<close> is declared in another
  file of package rtmp; the spec gives the protocol default of 128.\<close>

definition defaultChunkSize :: u32 where
  "defaultChunkSize = 128"

text \<open>Modelled from the spec: the constant \<open>maxTimestampInMessageHeader\<close> is declared in
  another file of package rtmp; the spec gives the sentinel 0xFFFFFF.\<close>

definition maxTimestampInMessageHeader :: u32 where
  "maxTimestampInMessageHeader = 0xFFFFFF"

text \<open>Modelled from the spec: the constant \<open>typeidSetChunkSize\<close> is declared in another
  file of package rtmp; the spec gives the type id 1.\<close>

definition typeidSetChunkSize :: byte where
  "typeidSetChunkSize = 1"

text \<open>Modelled from the spec: the struct \<open>Header\<close> is declared in another file of package
  rtmp. Its fields are the ones RunLoop assigns (and the ones printed in the comment at the
  end of chunk\_composer.go); the field types are those of the assigned expressions.
  \<open>MsgStreamID\<close> is a Go \<open>int\<close> holding \<open>int(uint32)\<close>, a non-negative value on 64-bit
  targets.\<close>

record Header =
  CSID :: int
  MsgLen :: u32
  Timestamp :: u32
  MsgTypeID :: byte
  MsgStreamID :: int
  TimestampAbs :: u32

text \<open>Modelled from the spec: the structs \<open>Stream\<close> and \<open>StreamMsg\<close> with the methods
  \<open>reserve\<close>, \<open>len\<close>, \<open>produced\<close> and \<open>clear\<close> are declared in another file of package
  rtmp. The spec describes a chunk stream as the last header plus the accumulating payload
  and its length. Here \<open>msg\<close> is the accumulated payload \<open>buf[b:e]\<close> with \<open>b = 0\<close>, and
  \<open>stale\<close> is what earlier messages of the chunk stream left in the backing array behind
  the position \<open>e\<close>. The backing array is zero-filled where nothing was written yet, and
  it is taken to be long enough for every read into it: its capacity, and a reallocation
  by \<open>reserve\<close>, are not represented.\<close>

record Stream =
  header :: Header
  msg :: "byte list"
  stale :: "byte list"

text \<open>Modelled from the spec: \<open>NewStream\<close> is declared with \<open>Stream\<close>; a chunk stream is
  created on the first sighting of its csid, with a zero header and nothing accumulated.\<close>

definition NewStream :: Stream where
  "NewStream = \<lparr> header = \<lparr> CSID = 0, MsgLen = 0, Timestamp = 0, MsgTypeID = 0,
                             MsgStreamID = 0, TimestampAbs = 0 \<rparr>,
                 msg = [], stale = [] \<rparr>"

text \<open>Modelled from the spec: \<open>StreamMsg.reserve\<close> makes room for the given number of
  bytes and keeps what is accumulated.\<close>

definition reserve :: "u32 \<Rightarrow> Stream \<Rightarrow> Stream" where
  "reserve n s = s"

text \<open>Modelled from the spec: \<open>StreamMsg.len\<close> is the accumulated length, a \<open>uint32\<close>.\<close>

definition msg_len :: "Stream \<Rightarrow> u32" where
  "msg_len s = of_nat (length (msg s))"

text \<open>Modelled from the spec: \<open>StreamMsg.produced\<close> counts the bytes just read into the
  buffer as accumulated; here the bytes themselves are appended, and they overwrite as
  many stale bytes.\<close>

definition produced :: "byte list \<Rightarrow> Stream \<Rightarrow> Stream" where
  "produced bs s = s\<lparr> msg := msg s @ bs, stale := drop (length bs) (stale s) \<rparr>"

text \<open>Modelled from the spec: \<open>StreamMsg.clear\<close> resets the positions \<open>b\<close> and \<open>e\<close>; the
  bytes stay in the backing array.\<close>

definition clear :: "Stream \<Rightarrow> Stream" where
  "clear s = s\<lparr> msg := [], stale := msg s @ stale s \<rparr>"

text \<open>Modelled from the spec: the field \<open>StreamMsg.buf\<close>, the backing array from its first
  byte: the accumulated payload, the stale bytes behind it, and zeros.\<close>

definition buf :: "Stream \<Rightarrow> byte list" where
  "buf s = msg s @ stale s @ replicate 4 0"

subsection \<open>Big- and little-endian decoding (package bele)\<close>

definition BEUint24 :: "byte list \<Rightarrow> u32" where
  "BEUint24 p = push_bit 16 (ucast (p ! 0)) OR push_bit 8 (ucast (p ! 1)) OR ucast (p ! 2)"

definition BEUint32 :: "byte list \<Rightarrow> u32" where
  "BEUint32 p = push_bit 24 (ucast (p ! 0)) OR push_bit 16 (ucast (p ! 1))
                OR push_bit 8 (ucast (p ! 2)) OR ucast (p ! 3)"

definition LEUint32 :: "byte list \<Rightarrow> u32" where
  "LEUint32 p = ucast (p ! 0) OR push_bit 8 (ucast (p ! 1))
                OR push_bit 16 (ucast (p ! 2)) OR push_bit 24 (ucast (p ! 3))"

subsection \<open>The byte source\<close>

text \<open>An \<open>io.Reader\<close> is modelled as the bytes it still delivers and the error it reports
  once they are exhausted. \<open>io.ReadAtLeast\<close> with a buffer of exactly \<open>n\<close> bytes either
  fills it, or fails: with the reader's error, or with \<open>ErrUnexpectedEOF\<close> when the
  reader ended with \<open>EOF\<close> after delivering some bytes. Asking for zero bytes succeeds.\<close>

datatype io_error = EOF | ErrUnexpectedEOF | ErrOther nat

record Reader =
  pending :: "byte list"
  failure :: io_error

definition ReadAtLeast :: "Reader \<Rightarrow> nat \<Rightarrow> io_error + (byte list \<times> Reader)" where
  "ReadAtLeast r n =
     (if n \<le> length (pending r)
      then Inr (take n (pending r), r\<lparr> pending := drop n (pending r) \<rparr>)
      else Inl (if failure r = EOF \<and> pending r \<noteq> [] then ErrUnexpectedEOF else failure r))"

subsection \<open>ChunkComposer\<close>

record ChunkComposer =
  peerChunkSize :: u32
  csid2stream :: "int \<rightharpoonup> Stream"

definition NewChunkComposer :: ChunkComposer where
  "NewChunkComposer = \<lparr> peerChunkSize = defaultChunkSize, csid2stream = Map.empty \<rparr>"

definition SetPeerChunkSize :: "u32 \<Rightarrow> ChunkComposer \<Rightarrow> ChunkComposer" where
  "SetPeerChunkSize val c = c\<lparr> peerChunkSize := val \<rparr>"

definition getOrCreateStream :: "ChunkComposer \<Rightarrow> int \<Rightarrow> Stream \<times> ChunkComposer" where
  "getOrCreateStream c csid =
     (case csid2stream c csid of
        Some stream \<Rightarrow> (stream, c)
      | None \<Rightarrow> (NewStream, c\<lparr> csid2stream := (csid2stream c)(csid \<mapsto> NewStream) \<rparr>))"

text \<open>RunLoop never returns normally: it ends with an error from the reader, an error from
  the callback, or the panic of the \<open>log.Panicf\<close> of the length check.\<close>

datatype panic = LengthOverrun

datatype 'e run_result = ReturnedIO io_error | ReturnedCb 'e | Panicked panic

text \<open>5.3.1.1 Chunk Basic Header: fmt and csid (source lines 46 to 69).\<close>

definition read_basic_header :: "Reader \<Rightarrow> io_error + (byte \<times> int \<times> Reader)" where
  "read_basic_header r =
     (case ReadAtLeast r 1 of
        Inl err \<Rightarrow> Inl err
      | Inr (bootstrap, r1) \<Rightarrow>
          (let fmt = drop_bit 6 (bootstrap ! 0) AND 0x03;
               csid = uint (bootstrap ! 0 AND 0x3f)
           in if csid = 0 then
                (case ReadAtLeast r1 1 of
                   Inl err \<Rightarrow> Inl err
                 | Inr (b, r2) \<Rightarrow> Inr (fmt, 64 + uint (b ! 0), r2))
              else if csid = 1 then
                (case ReadAtLeast r1 2 of
                   Inl err \<Rightarrow> Inl err
                 | Inr (b, r2) \<Rightarrow> Inr (fmt, 64 + uint (b ! 0) + uint (b ! 1) * 256, r2))
              else Inr (fmt, csid, r1)))"

text \<open>5.3.1.2 Chunk Message Header (source lines 73 to 110). The result carries the
  stream, the new value of the loop variable \<open>absTsFlag\<close> and the rest of the input.\<close>

definition read_message_header ::
  "byte \<Rightarrow> Stream \<Rightarrow> bool \<Rightarrow> Reader \<Rightarrow> io_error + (Stream \<times> bool \<times> Reader)" where
  "read_message_header fmt stream absTsFlag r =
     (if fmt = 0 then
        (case ReadAtLeast r 11 of
           Inl err \<Rightarrow> Inl err
         | Inr (bootstrap, r1) \<Rightarrow>
             (let h = (header stream)\<lparr>
                        Timestamp := BEUint24 bootstrap,
                        TimestampAbs := BEUint24 bootstrap,
                        MsgLen := BEUint24 (drop 3 bootstrap),
                        MsgTypeID := bootstrap ! 6,
                        MsgStreamID := uint (LEUint32 (drop 7 bootstrap)) \<rparr>
              in Inr (reserve (MsgLen h) (stream\<lparr> header := h \<rparr>), True, r1)))
      else if fmt = 1 then
        (case ReadAtLeast r 7 of
           Inl err \<Rightarrow> Inl err
         | Inr (bootstrap, r1) \<Rightarrow>
             (let h = (header stream)\<lparr>
                        Timestamp := BEUint24 bootstrap,
                        MsgLen := BEUint24 (drop 3 bootstrap),
                        MsgTypeID := bootstrap ! 6 \<rparr>
              in Inr (reserve (MsgLen h) (stream\<lparr> header := h \<rparr>), absTsFlag, r1)))
      else if fmt = 2 then
        (case ReadAtLeast r 3 of
           Inl err \<Rightarrow> Inl err
         | Inr (bootstrap, r1) \<Rightarrow>
             Inr (stream\<lparr> header := (header stream)\<lparr> Timestamp := BEUint24 bootstrap \<rparr> \<rparr>,
                  absTsFlag, r1))
      else Inr (stream, absTsFlag, r))"

text \<open>5.3.1.3 Extended Timestamp (source lines 113 to 136).\<close>

definition read_extended_timestamp ::
  "byte \<Rightarrow> Stream \<Rightarrow> Reader \<Rightarrow> io_error + (Stream \<times> Reader)" where
  "read_extended_timestamp fmt stream r =
     (if maxTimestampInMessageHeader \<le> Timestamp (header stream) then
        (case ReadAtLeast r 4 of
           Inl err \<Rightarrow> Inl err
         | Inr (bootstrap, r1) \<Rightarrow>
             (let h = (header stream)\<lparr> Timestamp := BEUint32 bootstrap \<rparr>;
                  h' = (if fmt = 0 then h\<lparr> TimestampAbs := Timestamp h \<rparr>
                        else if fmt = 1 \<or> fmt = 2 then
                          h\<lparr> TimestampAbs :=
                               TimestampAbs h - maxTimestampInMessageHeader + Timestamp h \<rparr>
                        else h)
              in Inr (stream\<lparr> header := h' \<rparr>, r1)))
      else Inr (stream, r))"

text \<open>The size of the payload slice of the current chunk (source lines 138 to 146).\<close>

definition neededSize :: "ChunkComposer \<Rightarrow> Stream \<Rightarrow> u32" where
  "neededSize c stream =
     (if MsgLen (header stream) \<le> peerChunkSize c then MsgLen (header stream)
      else (let n = MsgLen (header stream) - msg_len stream
            in if n > peerChunkSize c then peerChunkSize c else n))"

text \<open>One chunk from the basic header to \<open>stream.msg.produced\<close> (source lines 46 to 152).
  The result is the csid, the fmt, the composer with the stream table as
  \<open>getOrCreateStream\<close> left it, the stream after the payload was appended, the flag and the
  rest of the input.\<close>

definition read_chunk ::
  "ChunkComposer \<Rightarrow> bool \<Rightarrow> Reader
     \<Rightarrow> io_error + (int \<times> byte \<times> ChunkComposer \<times> Stream \<times> bool \<times> Reader)" where
  "read_chunk c absTsFlag r =
     (case read_basic_header r of
        Inl err \<Rightarrow> Inl err
      | Inr (fmt, csid, r1) \<Rightarrow>
          (let (stream, c1) = getOrCreateStream c csid
           in case read_message_header fmt stream absTsFlag r1 of
                Inl err \<Rightarrow> Inl err
              | Inr (s1, flag1, r2) \<Rightarrow>
                  (case read_extended_timestamp fmt s1 r2 of
                     Inl err \<Rightarrow> Inl err
                   | Inr (s2, r3) \<Rightarrow>
                       (case ReadAtLeast r3 (unat (neededSize c1 s2)) of
                          Inl err \<Rightarrow> Inl err
                        | Inr (bs, r4) \<Rightarrow> Inr (csid, fmt, c1, produced bs s2, flag1, r4)))))"

text \<open>What the callback is given: the stream, and the peer chunk size the composer has at
  that moment.\<close>

type_synonym delivery = "Stream \<times> u32"

datatype 'e chunk_result =
    Stop "'e run_result" "delivery list"
  | Continue ChunkComposer bool "delivery list"

text \<open>The end of one iteration (source lines 154 to 176): the completion test with the
  set-chunk-size intercept, the timestamp accumulation, the callback and the clearing of
  the accumulator; then the length check. The stream is written back into the table, as the
  Go code mutates it through its pointer.\<close>

definition finish_chunk ::
  "(Stream \<Rightarrow> 'e option) \<Rightarrow> int \<Rightarrow> ChunkComposer \<Rightarrow> Stream \<Rightarrow> bool \<Rightarrow> 'e chunk_result" where
  "finish_chunk cb csid c stream absTsFlag =
     (if msg_len stream = MsgLen (header stream) then
        (let c1 = (if MsgTypeID (header stream) = typeidSetChunkSize
                   then SetPeerChunkSize (BEUint32 (buf stream)) c else c);
             h1 = (header stream)\<lparr> CSID := csid \<rparr>;
             h2 = (if \<not> absTsFlag then h1\<lparr> TimestampAbs := TimestampAbs h1 + Timestamp h1 \<rparr>
                   else h1);
             s2 = stream\<lparr> header := h2 \<rparr>
         in case cb s2 of
              Some err \<Rightarrow> Stop (ReturnedCb err) [(s2, peerChunkSize c1)]
            | None \<Rightarrow>
                (let s3 = clear s2
                 in if msg_len s3 > MsgLen (header s3)
                    then Stop (Panicked LengthOverrun) [(s2, peerChunkSize c1)]
                    else Continue (c1\<lparr> csid2stream := (csid2stream c1)(csid \<mapsto> s3) \<rparr>)
                                  False [(s2, peerChunkSize c1)]))
      else if msg_len stream > MsgLen (header stream) then Stop (Panicked LengthOverrun) []
      else Continue (c\<lparr> csid2stream := (csid2stream c)(csid \<mapsto> stream) \<rparr>) absTsFlag [])"

lemma read_basic_header_shorter:
  assumes "read_basic_header r = Inr (fmt, csid, r1)"
  shows "length (pending r1) < length (pending r)"
  using assms
  by (auto simp: read_basic_header_def ReadAtLeast_def Let_def
           split: sum.splits if_splits prod.splits)

lemma read_message_header_shorter:
  assumes "read_message_header fmt s f r = Inr (s1, f1, r1)"
  shows "length (pending r1) \<le> length (pending r)"
  using assms
  by (auto simp: read_message_header_def ReadAtLeast_def Let_def
           split: sum.splits if_splits prod.splits)

lemma read_extended_timestamp_shorter:
  assumes "read_extended_timestamp fmt s r = Inr (s1, r1)"
  shows "length (pending r1) \<le> length (pending r)"
  using assms
  by (auto simp: read_extended_timestamp_def ReadAtLeast_def Let_def
           split: sum.splits if_splits prod.splits)

lemma read_chunk_shorter:
  assumes "read_chunk c f r = Inr (csid, fmt, c1, s, f1, r1)"
  shows "length (pending r1) < length (pending r)"
proof -
  from assms obtain ra rb rc sa sb fa n where
    a: "read_basic_header r = Inr (fmt, csid, ra)" and
    b: "read_message_header fmt sa f ra = Inr (sb, fa, rb)" and
    d: "\<exists>s2. read_extended_timestamp fmt sb rb = Inr (s2, rc)" and
    e: "\<exists>bs. ReadAtLeast rc n = Inr (bs, r1)"
    unfolding read_chunk_def Let_def
    by (fastforce split: sum.splits prod.splits)
  from e have "length (pending r1) \<le> length (pending rc)"
    by (auto simp: ReadAtLeast_def split: if_splits)
  moreover from d have "length (pending rc) \<le> length (pending rb)"
    by (auto dest: read_extended_timestamp_shorter)
  moreover from b have "length (pending rb) \<le> length (pending ra)"
    by (rule read_message_header_shorter)
  moreover from a have "length (pending ra) < length (pending r)"
    by (rule read_basic_header_shorter)
  ultimately show ?thesis by linarith
qed

text \<open>The loop. Every iteration consumes at least the basic header, so on a source that
  ends the loop ends; the result is how RunLoop ended and what the callback was given.\<close>

function RunLoop_from ::
  "(Stream \<Rightarrow> 'e option) \<Rightarrow> ChunkComposer \<Rightarrow> bool \<Rightarrow> Reader \<Rightarrow> 'e run_result \<times> delivery list" where
  "RunLoop_from cb c absTsFlag r =
     (case read_chunk c absTsFlag r of
        Inl err \<Rightarrow> (ReturnedIO err, [])
      | Inr (csid, fmt, c1, stream, flag1, r1) \<Rightarrow>
          (case finish_chunk cb csid c1 stream flag1 of
             Stop res ds \<Rightarrow> (res, ds)
           | Continue c2 flag2 ds \<Rightarrow>
               (let (res, ds') = RunLoop_from cb c2 flag2 r1 in (res, ds @ ds'))))"
  by pat_completeness auto
termination
  by (relation "measure (\<lambda>(cb, c, f, r). length (pending r))")
     (auto dest: read_chunk_shorter)

declare RunLoop_from.simps [simp del]

definition RunLoop :: "(Stream \<Rightarrow> 'e option) \<Rightarrow> ChunkComposer \<Rightarrow> Reader \<Rightarrow> 'e run_result \<times> delivery list" where
  "RunLoop cb c r = RunLoop_from cb c False r"

text \<open>The state after \<open>n\<close> full iterations of the loop, when none of them ended it.\<close>

fun run_chunks ::
  "nat \<Rightarrow> (Stream \<Rightarrow> 'e option) \<Rightarrow> ChunkComposer \<Rightarrow> bool \<Rightarrow> Reader
     \<Rightarrow> (ChunkComposer \<times> bool \<times> Reader) option" where
  "run_chunks 0 cb c absTsFlag r = Some (c, absTsFlag, r)"
| "run_chunks (Suc n) cb c absTsFlag r =
     (case read_chunk c absTsFlag r of
        Inl err \<Rightarrow> None
      | Inr (csid, fmt, c1, stream, flag1, r1) \<Rightarrow>
          (case finish_chunk cb csid c1 stream flag1 of
             Stop res ds \<Rightarrow> None
           | Continue c2 flag2 ds \<Rightarrow> run_chunks n cb c2 flag2 r1))"

text \<open>Projections of the end of an iteration: what the callback was given, and the
  composer the loop goes on with.\<close>

definition result_deliveries :: "'e chunk_result \<Rightarrow> delivery list" where
  "result_deliveries x = (case x of Stop res ds \<Rightarrow> ds | Continue c f ds \<Rightarrow> ds)"

definition result_composer :: "'e chunk_result \<Rightarrow> ChunkComposer option" where
  "result_composer x = (case x of Stop res ds \<Rightarrow> None | Continue c f ds \<Rightarrow> Some c)"

text \<open>A callback that accepts every message, and what a test would observe of a run: how
  it ended, and csid, absolute timestamp and payload length of every message delivered.\<close>

definition accept_all :: "Stream \<Rightarrow> unit option" where
  "accept_all s = None"

definition observed :: "'e run_result \<times> delivery list \<Rightarrow> 'e run_result \<times> (int \<times> u32 \<times> nat) list" where
  "observed x =
     (fst x, map (\<lambda>(s, p). (CSID (header s), TimestampAbs (header s), length (msg s))) (snd x))"

definition from_bytes :: "byte list \<Rightarrow> Reader" where
  "from_bytes bs = \<lparr> pending = bs, failure = EOF \<rparr>"

section \<open>The group (pkg/logic/group.go)\<close>

subsection \<open>Collaborators declared outside group.go\<close>

type_synonym bytes = "byte list"

text \<open>Modelled from the spec: \<open>rtmp.AVMsg\<close> is declared in package rtmp, outside
  chunk\_composer.go; group.go reads its \<open>Header\<close> and its \<open>Payload\<close>.\<close>

record AVMsg =
  Header :: Header
  Payload :: bytes

text \<open>Modelled from the spec: the session types \<open>rtmp.ServerSession\<close>, \<open>rtmp.PushSession\<close>
  and \<open>httpflv.SubSession\<close> are declared in packages rtmp and httpflv, outside group.go. The spec describes a
  session as an asynchronous write queue plus the latch \<open>is_fresh\<close>, true at construction.
  \<open>sent\<close> is everything handed to \<open>AsyncWrite\<close>, \<open>WriteRawPacket\<close>,
  \<open>WriteHTTPResponseHeader\<close> and \<open>WriteFLVHeader\<close>, in order; write errors are ignored by
  group.go.\<close>

datatype packet = Raw bytes | HTTPResponseHeader | FLVHeader

record Session =
  IsFresh :: bool
  sent :: "packet list"
  disposed :: bool
  observer :: bool

text \<open>Modelled from the spec: the constructors and methods of the session types, as far as
  group.go calls them.\<close>

definition NewSession :: Session where
  "NewSession = \<lparr> IsFresh = True, sent = [], disposed = False, observer = False \<rparr>"

definition AsyncWrite :: "bytes \<Rightarrow> Session \<Rightarrow> Session" where
  "AsyncWrite b s = s\<lparr> sent := sent s @ [Raw b] \<rparr>"

definition WriteRawPacket :: "bytes \<Rightarrow> Session \<Rightarrow> Session" where
  "WriteRawPacket b s = s\<lparr> sent := sent s @ [Raw b] \<rparr>"

definition WriteHTTPResponseHeader :: "Session \<Rightarrow> Session" where
  "WriteHTTPResponseHeader s = s\<lparr> sent := sent s @ [HTTPResponseHeader] \<rparr>"

definition WriteFLVHeader :: "Session \<Rightarrow> Session" where
  "WriteFLVHeader s = s\<lparr> sent := sent s @ [FLVHeader] \<rparr>"

definition SessionDispose :: "Session \<Rightarrow> Session" where
  "SessionDispose s = s\<lparr> disposed := True \<rparr>"

definition SetPubSessionObserver :: "Session \<Rightarrow> Session" where
  "SetPubSessionObserver s = s\<lparr> observer := True \<rparr>"

text \<open>Modelled from the spec: \<open>GOPCache\<close> is declared in another file of package logic. The
  spec describes it as the latest metadata, the latest video and audio sequence headers
  and a bounded sequence of cached GOPs, each an ordered sequence of messages; \<open>clear\<close>
  resets all of it. A nil byte slice is \<open>None\<close>. \<open>Feed\<close> is taken as a parameter (see
  \<open>Collab\<close>).\<close>

record GOPCache =
  gopNum :: int
  Metadata :: "bytes option"
  VideoSeqHeader :: "bytes option"
  AACSeqHeader :: "bytes option"
  gops :: "bytes list list"

text \<open>Modelled from the spec: \<open>NewGOPCache\<close>, \<open>GetGOPCount\<close>, \<open>GetGOPDataAt\<close> and \<open>Clear\<close>
  of \<open>GOPCache\<close>: an empty cache, the number of cached GOPs, the messages of the GOP at an
  index, and the reset of all cached state.\<close>

definition NewGOPCache :: "int \<Rightarrow> GOPCache" where
  "NewGOPCache n = \<lparr> gopNum = n, Metadata = None, VideoSeqHeader = None,
                      AACSeqHeader = None, gops = [] \<rparr>"

definition GetGOPCount :: "GOPCache \<Rightarrow> nat" where
  "GetGOPCount gc = length (gops gc)"

definition GetGOPDataAt :: "GOPCache \<Rightarrow> nat \<Rightarrow> bytes list" where
  "GetGOPDataAt gc i = gops gc ! i"

definition Clear :: "GOPCache \<Rightarrow> GOPCache" where
  "Clear gc = gc\<lparr> Metadata := None, VideoSeqHeader := None, AACSeqHeader := None, gops := [] \<rparr>"

text \<open>Modelled from the spec: \<open>hls.Muxer\<close> is declared in package hls, outside
  group.go; the group creates it for a stream name, starts it, feeds it messages and
  disposes it.\<close>

record Muxer =
  muxStreamName :: string
  started :: bool
  fed :: "AVMsg list"

text \<open>Modelled from the spec: \<open>hls.NewMuxer\<close>, \<open>Muxer.Start\<close> and \<open>Muxer.FeedRTMPMessage\<close>;
  a disposed muxer is dropped by the group.\<close>

definition NewMuxer :: "string \<Rightarrow> Muxer" where
  "NewMuxer name = \<lparr> muxStreamName = name, started = False, fed = [] \<rparr>"

definition MuxerStart :: "Muxer \<Rightarrow> Muxer" where
  "MuxerStart m = m\<lparr> started := True \<rparr>"

definition FeedRTMPMessage :: "AVMsg \<Rightarrow> Muxer \<Rightarrow> Muxer" where
  "FeedRTMPMessage m mux = mux\<lparr> fed := fed mux @ [m] \<rparr>"

text \<open>Modelled from the spec: the package variable \<open>config\<close> is declared in another file of
  package logic. These are the fields group.go reads.\<close>

record Config =
  RelayPushEnable :: bool
  RelayPushAddrList :: "string list"
  RelayPullEnable :: bool
  RelayPullAddr :: string
  HLSEnable :: bool
  RTMPEnable :: bool
  RTMPGOPNum :: int
  HTTPFLVEnable :: bool
  HTTPFLVGOPNum :: int

text \<open>The functions of other files that the broadcast calls are parameters:
  \<open>Trans.MakeDefaultRTMPHeader\<close>, the chunk divider behind \<open>LazyChunkDivider.Get\<close>, the
  tag converter behind \<open>LazyRTMPMsg2FLVTag.Get\<close>, and \<open>GOPCache.Feed\<close>, which is given the
  message and the bytes the lazy getter would return.\<close>

record Collab =
  MakeDefaultRTMPHeader :: "Header \<Rightarrow> Header"
  Message2Chunks :: "bytes \<Rightarrow> Header \<Rightarrow> bytes"
  RTMPMsg2FLVTag :: "AVMsg \<Rightarrow> bytes"
  Feed :: "GOPCache \<Rightarrow> AVMsg \<Rightarrow> bytes \<Rightarrow> GOPCache"

subsection \<open>The group and its store\<close>

text \<open>Sessions are Go pointers: a session is named by an address (a natural number), and
  the objects live in a store, one per session type. The store is kept beside the fields
  of the Go struct. \<open>mutex\<close> is true while the mutex is held. Three fields are
  bookkeeping of this model: \<open>pullTasks\<close> and \<open>pushTasks\<close> list the urls of the goroutines
  started by \<open>pullIfNeeded\<close> and \<open>pushIfNeeded\<close>, and \<open>unguarded\<close> lists the struct
  fields that were written while the mutex was not held. A nil map is \<open>None\<close>. The Go map
  \<open>url2PushProxy\<close> is an association list with distinct keys; Go's iteration order over a
  map is arbitrary, here it is the list order.\<close>

record pushProxy =
  isPushing :: bool
  pushSession :: "nat option"

record Group =
  UniqueKey :: string
  appName :: string
  streamName :: string
  exitChan :: nat
  mutex :: bool
  pubSession :: "nat option"
  rtmpSubSessionSet :: "nat set option"
  httpflvSubSessionSet :: "nat set option"
  hlsMuxer :: "Muxer option"
  url2PushProxy :: "(string \<times> pushProxy) list option"
  pullSession :: "nat option"
  isPulling :: bool
  gopCache :: GOPCache
  httpflvGopCache :: GOPCache
  serverSessions :: "nat \<Rightarrow> Session"
  httpflvSessions :: "nat \<Rightarrow> Session"
  pushSessions :: "nat \<Rightarrow> Session"
  pullTasks :: "string list"
  pushTasks :: "string list"
  unguarded :: "string list"

text \<open>How a call can fail to return: a nil pointer dereference, an assignment to an entry
  of a nil map, or a send on the full \<open>exitChan\<close> (which blocks for ever).\<close>

datatype fault = NilDereference | NilMapAssignment | SendBlocked

definition Lock :: "Group \<Rightarrow> Group" where
  "Lock g = g\<lparr> mutex := True \<rparr>"

definition Unlock :: "Group \<Rightarrow> Group" where
  "Unlock g = g\<lparr> mutex := False \<rparr>"

text \<open>A write to group state: the update itself, recorded in \<open>unguarded\<close> when the mutex is
  not held at that moment.\<close>

definition assign :: "string \<Rightarrow> (Group \<Rightarrow> Group) \<Rightarrow> Group \<Rightarrow> Group" where
  "assign field f g =
     (if mutex g then f g else (f g)\<lparr> unguarded := unguarded g @ [field] \<rparr>)"

definition members :: "nat set option \<Rightarrow> nat set" where
  "members m = (case m of None \<Rightarrow> {} | Some S \<Rightarrow> S)"

definition proxies :: "Group \<Rightarrow> (string \<times> pushProxy) list" where
  "proxies g = (case url2PushProxy g of None \<Rightarrow> [] | Some m \<Rightarrow> m)"

fun proxy_put :: "string \<Rightarrow> pushProxy \<Rightarrow> (string \<times> pushProxy) list \<Rightarrow> (string \<times> pushProxy) list" where
  "proxy_put url v [] = [(url, v)]"
| "proxy_put url v ((k, w) # m) = (if k = url then (k, v) # m else (k, w) # proxy_put url v m)"

definition relay_url :: "string \<Rightarrow> string \<Rightarrow> string \<Rightarrow> string" where
  "relay_url addr app stream = ''rtmp://'' @ addr @ ''/'' @ app @ ''/'' @ stream"

definition NewGroup :: "Config \<Rightarrow> string \<Rightarrow> string \<Rightarrow> string \<Rightarrow> Group" where
  "NewGroup cfg uk app stream =
     \<lparr> UniqueKey = uk,
       appName = app,
       streamName = stream,
       exitChan = 0,
       mutex = False,
       pubSession = None,
       rtmpSubSessionSet = Some {},
       httpflvSubSessionSet = Some {},
       hlsMuxer = None,
       url2PushProxy =
         Some (if RelayPushEnable cfg
               then fold (\<lambda>addr m. proxy_put (relay_url addr app stream)
                                       \<lparr> isPushing = False, pushSession = None \<rparr> m)
                         (RelayPushAddrList cfg) []
               else []),
       pullSession = None,
       isPulling = False,
       gopCache = NewGOPCache (RTMPGOPNum cfg),
       httpflvGopCache = NewGOPCache (HTTPFLVGOPNum cfg),
       serverSessions = (\<lambda>p. NewSession),
       httpflvSessions = (\<lambda>p. NewSession),
       pushSessions = (\<lambda>p. NewSession),
       pullTasks = [],
       pushTasks = [],
       unguarded = [] \<rparr>"

text \<open>\<open>pullIfNeeded\<close> (source lines 441 to 476). The goroutine it starts is recorded in
  \<open>pullTasks\<close>; what the goroutine does later are calls of \<open>AddRTMPPullSession\<close> and
  \<open>DelRTMPPullSession\<close>.\<close>

definition pullIfNeeded :: "Config \<Rightarrow> Group \<Rightarrow> Group" where
  "pullIfNeeded cfg g =
     (if \<not> RelayPullEnable cfg then g
      else if members (rtmpSubSessionSet g) = {} \<and> members (httpflvSubSessionSet g) = {} then g
      else if pubSession g \<noteq> None \<or> pullSession g \<noteq> None then g
      else if isPulling g then g
      else (let g1 = assign ''isPulling'' (\<lambda>g. g\<lparr> isPulling := True \<rparr>) g;
                url = relay_url (RelayPullAddr cfg) (appName g1) (streamName g1)
            in g1\<lparr> pullTasks := pullTasks g1 @ [url] \<rparr>))"

text \<open>\<open>pushIfNeeded\<close> (source lines 478 to 514).\<close>

definition pushIfNeeded :: "Config \<Rightarrow> Group \<Rightarrow> Group" where
  "pushIfNeeded cfg g =
     (if \<not> RelayPushEnable cfg then g
      else if pubSession g = None then g
      else (let idle = map fst (filter (\<lambda>(url, v). \<not> isPushing v) (proxies g))
            in if idle = [] then g
               else (assign ''url2PushProxy''
                       (\<lambda>g. g\<lparr> url2PushProxy :=
                                  Some (map (\<lambda>(url, v). (url, v\<lparr> isPushing := True \<rparr>)) (proxies g)) \<rparr>)
                       g)\<lparr> pushTasks := pushTasks g @ idle \<rparr>))"

definition Tick :: "Config \<Rightarrow> Group \<Rightarrow> Group" where
  "Tick cfg g = Unlock (pushIfNeeded cfg (pullIfNeeded cfg (Lock g)))"

definition dispose_push_sessions :: "(string \<times> pushProxy) list \<Rightarrow> (nat \<Rightarrow> Session) \<Rightarrow> (nat \<Rightarrow> Session)" where
  "dispose_push_sessions m store =
     fold (\<lambda>(url, v) st. case pushSession v of
                            None \<Rightarrow> st
                          | Some p \<Rightarrow> st(p := SessionDispose (st p))) m store"

text \<open>\<open>Dispose\<close> (source lines 102 to 137). \<open>exitChan\<close> has room for one value.\<close>

definition Dispose :: "Config \<Rightarrow> Group \<Rightarrow> fault + Group" where
  "Dispose cfg g0 =
     (if exitChan g0 \<ge> 1 then Inl SendBlocked
      else
        (let g1 = Lock (g0\<lparr> exitChan := exitChan g0 + 1 \<rparr>);
             g2 = (case pubSession g1 of
                     None \<Rightarrow> g1
                   | Some p \<Rightarrow>
                       assign ''pubSession'' (\<lambda>g. g\<lparr> pubSession := None \<rparr>)
                         (g1\<lparr> serverSessions :=
                                (serverSessions g1)(p := SessionDispose (serverSessions g1 p)) \<rparr>));
             g3 = assign ''rtmpSubSessionSet'' (\<lambda>g. g\<lparr> rtmpSubSessionSet := None \<rparr>)
                    (g2\<lparr> serverSessions :=
                           (\<lambda>p. if p \<in> members (rtmpSubSessionSet g2)
                                then SessionDispose (serverSessions g2 p)
                                else serverSessions g2 p) \<rparr>);
             g4 = assign ''httpflvSubSessionSet'' (\<lambda>g. g\<lparr> httpflvSubSessionSet := None \<rparr>)
                    (g3\<lparr> httpflvSessions :=
                           (\<lambda>p. if p \<in> members (httpflvSubSessionSet g3)
                                then SessionDispose (httpflvSessions g3 p)
                                else httpflvSessions g3 p) \<rparr>);
             g5 = (case hlsMuxer g4 of
                     None \<Rightarrow> g4
                   | Some mux \<Rightarrow> assign ''hlsMuxer'' (\<lambda>g. g\<lparr> hlsMuxer := None \<rparr>) g4);
             g6 = (if RelayPushEnable cfg
                   then assign ''url2PushProxy'' (\<lambda>g. g\<lparr> url2PushProxy := None \<rparr>)
                          (g5\<lparr> pushSessions := dispose_push_sessions (proxies g5) (pushSessions g5) \<rparr>)
                   else g5)
         in Inr (Unlock g6)))"

text \<open>\<open>AddRTMPPubSession\<close> (source lines 139 to 163).\<close>

definition AddRTMPPubSession :: "Config \<Rightarrow> nat \<Rightarrow> Group \<Rightarrow> bool \<times> Group" where
  "AddRTMPPubSession cfg session g0 =
     (let g1 = Lock g0
      in if pubSession g1 \<noteq> None then (False, Unlock g1)
         else
           (let g2 = assign ''pubSession'' (\<lambda>g. g\<lparr> pubSession := Some session \<rparr>) g1;
                g3 = (if HLSEnable cfg
                      then assign ''hlsMuxer''
                             (\<lambda>g. g\<lparr> hlsMuxer := Some (MuxerStart (NewMuxer (streamName g))) \<rparr>) g2
                      else g2);
                g4 = (if RelayPushEnable cfg then pushIfNeeded cfg g3 else g3);
                g5 = g4\<lparr> serverSessions :=
                          (serverSessions g4)(session := SetPubSessionObserver (serverSessions g4 session)) \<rparr>
            in (True, Unlock g5)))"

text \<open>\<open>DelRTMPPubSession\<close> (source lines 165 to 189).\<close>

definition DelRTMPPubSession :: "Config \<Rightarrow> nat \<Rightarrow> Group \<Rightarrow> Group" where
  "DelRTMPPubSession cfg session g0 =
     (let g1 = Lock g0;
          g2 = assign ''pubSession'' (\<lambda>g. g\<lparr> pubSession := None \<rparr>) g1;
          g3 = (if HLSEnable cfg \<and> hlsMuxer g2 \<noteq> None
                then assign ''hlsMuxer'' (\<lambda>g. g\<lparr> hlsMuxer := None \<rparr>) g2
                else g2);
          g4 = (if RelayPushEnable cfg \<and> proxies g3 \<noteq> []
                then assign ''url2PushProxy''
                       (\<lambda>g. g\<lparr> url2PushProxy :=
                                  Some (map (\<lambda>(url, v). (url, v\<lparr> pushSession := None \<rparr>)) (proxies g)) \<rparr>)
                       (g3\<lparr> pushSessions := dispose_push_sessions (proxies g3) (pushSessions g3) \<rparr>)
                else g3);
          g5 = assign ''gopCache'' (\<lambda>g. g\<lparr> gopCache := Clear (gopCache g) \<rparr>) g4;
          g6 = assign ''httpflvGopCache'' (\<lambda>g. g\<lparr> httpflvGopCache := Clear (httpflvGopCache g) \<rparr>) g5
      in Unlock g6)"

text \<open>\<open>AddRTMPPullSession\<close> (source lines 191 to 203): the mutex is locked and unlocked
  at once, the assignments follow.\<close>

definition AddRTMPPullSession :: "Config \<Rightarrow> nat \<Rightarrow> Group \<Rightarrow> Group" where
  "AddRTMPPullSession cfg session g0 =
     (let g1 = Unlock (Lock g0);
          g2 = assign ''pullSession'' (\<lambda>g. g\<lparr> pullSession := Some session \<rparr>) g1;
          g3 = (if HLSEnable cfg
                then assign ''hlsMuxer''
                       (\<lambda>g. g\<lparr> hlsMuxer := Some (MuxerStart (NewMuxer (streamName g))) \<rparr>) g2
                else g2)
      in g3)"

text \<open>\<open>DelRTMPPullSession\<close> (source lines 205 to 221): the same shape.\<close>

definition DelRTMPPullSession :: "Config \<Rightarrow> nat \<Rightarrow> Group \<Rightarrow> Group" where
  "DelRTMPPullSession cfg session g0 =
     (let g1 = Unlock (Lock g0);
          g2 = assign ''pullSession'' (\<lambda>g. g\<lparr> pullSession := None \<rparr>) g1;
          g3 = assign ''isPulling'' (\<lambda>g. g\<lparr> isPulling := False \<rparr>) g2;
          g4 = (if HLSEnable cfg \<and> hlsMuxer g3 \<noteq> None
                then assign ''hlsMuxer'' (\<lambda>g. g\<lparr> hlsMuxer := None \<rparr>) g3
                else g3);
          g5 = assign ''gopCache'' (\<lambda>g. g\<lparr> gopCache := Clear (gopCache g) \<rparr>) g4;
          g6 = assign ''httpflvGopCache'' (\<lambda>g. g\<lparr> httpflvGopCache := Clear (httpflvGopCache g) \<rparr>) g5
      in g6)"

text \<open>The subscriber sets (source lines 223 to 256). Storing into a nil map panics;
  \<open>delete\<close> on a nil map does nothing.\<close>

definition AddRTMPSubSession :: "Config \<Rightarrow> nat \<Rightarrow> Group \<Rightarrow> fault + Group" where
  "AddRTMPSubSession cfg session g0 =
     (let g1 = Lock g0
      in case rtmpSubSessionSet g1 of
           None \<Rightarrow> Inl NilMapAssignment
         | Some S \<Rightarrow>
             (let g2 = assign ''rtmpSubSessionSet''
                         (\<lambda>g. g\<lparr> rtmpSubSessionSet := Some (insert session S) \<rparr>) g1
              in Inr (Unlock (pullIfNeeded cfg g2))))"

definition DelRTMPSubSession :: "nat \<Rightarrow> Group \<Rightarrow> Group" where
  "DelRTMPSubSession session g0 =
     (let g1 = Lock g0
      in case rtmpSubSessionSet g1 of
           None \<Rightarrow> Unlock g1
         | Some S \<Rightarrow>
             Unlock (assign ''rtmpSubSessionSet''
                       (\<lambda>g. g\<lparr> rtmpSubSessionSet := Some (S - {session}) \<rparr>) g1))"

definition AddHTTPFLVSubSession :: "Config \<Rightarrow> nat \<Rightarrow> Group \<Rightarrow> fault + Group" where
  "AddHTTPFLVSubSession cfg session g0 =
     (let g1 = Lock (g0\<lparr> httpflvSessions :=
                         (httpflvSessions g0)
                           (session := WriteFLVHeader (WriteHTTPResponseHeader (httpflvSessions g0 session))) \<rparr>)
      in case httpflvSubSessionSet g1 of
           None \<Rightarrow> Inl NilMapAssignment
         | Some S \<Rightarrow>
             (let g2 = assign ''httpflvSubSessionSet''
                         (\<lambda>g. g\<lparr> httpflvSubSessionSet := Some (insert session S) \<rparr>) g1
              in Inr (Unlock (pullIfNeeded cfg g2))))"

definition DelHTTPFLVSubSession :: "nat \<Rightarrow> Group \<Rightarrow> Group" where
  "DelHTTPFLVSubSession session g0 =
     (let g1 = Lock g0
      in case httpflvSubSessionSet g1 of
           None \<Rightarrow> Unlock g1
         | Some S \<Rightarrow>
             Unlock (assign ''httpflvSubSessionSet''
                       (\<lambda>g. g\<lparr> httpflvSubSessionSet := Some (S - {session}) \<rparr>) g1))"

text \<open>The push sessions (source lines 258 to 275). \<open>group.url2PushProxy[url]\<close> is a nil
  pointer for a url that is not a key of the map, and assigning through it panics.\<close>

definition AddRTMPPushSession :: "string \<Rightarrow> nat \<Rightarrow> Group \<Rightarrow> fault + Group" where
  "AddRTMPPushSession url session g0 =
     (let g1 = Lock g0
      in case url2PushProxy g1 of
           None \<Rightarrow> Inr (Unlock g1)
         | Some m \<Rightarrow>
             (case map_of m url of
                None \<Rightarrow> Inl NilDereference
              | Some v \<Rightarrow>
                  Inr (Unlock (assign ''url2PushProxy''
                                 (\<lambda>g. g\<lparr> url2PushProxy :=
                                            Some (proxy_put url (v\<lparr> pushSession := Some session \<rparr>) m) \<rparr>)
                                 g1))))"

definition DelRTMPPushSession :: "string \<Rightarrow> nat \<Rightarrow> Group \<Rightarrow> fault + Group" where
  "DelRTMPPushSession url session g0 =
     (let g1 = Lock g0
      in case url2PushProxy g1 of
           None \<Rightarrow> Inr (Unlock g1)
         | Some m \<Rightarrow>
             (case map_of m url of
                None \<Rightarrow> Inl NilDereference
              | Some v \<Rightarrow>
                  Inr (Unlock (assign ''url2PushProxy''
                                 (\<lambda>g. g\<lparr> url2PushProxy :=
                                            Some (proxy_put url
                                                    (v\<lparr> pushSession := None, isPushing := False \<rparr>) m) \<rparr>)
                                 g1))))"

definition IsTotalEmpty :: "Group \<Rightarrow> bool" where
  "IsTotalEmpty g =
     (let hasPushSession = (\<exists>(url, item) \<in> set (proxies g). isPushing item \<or> pushSession item \<noteq> None)
      in pubSession g = None \<and> members (rtmpSubSessionSet g) = {} \<and>
         members (httpflvSubSessionSet g) = {} \<and> hlsMuxer g = None \<and>
         \<not> hasPushSession \<and> pullSession g = None)"

subsection \<open>The broadcast\<close>

text \<open>What the bodies of the three loops of \<open>broadcastRTMP\<close> do to one session (source
  lines 351 to 375, 384 to 403 and 408 to 429): a fresh session is first sent the cached
  metadata, video sequence header and audio sequence header, each unless nil, then the
  items of the cached GOPs by index, and its latch is cleared; then every session is sent
  the current message. \<open>write\<close> is \<open>AsyncWrite\<close> for the RTMP and push sessions and
  \<open>WriteRawPacket\<close> for the HTTP-FLV sessions.\<close>

definition send_cached :: "(bytes \<Rightarrow> Session \<Rightarrow> Session) \<Rightarrow> GOPCache \<Rightarrow> Session \<Rightarrow> Session" where
  "send_cached write gc s0 =
     (let s1 = (case Metadata gc of None \<Rightarrow> s0 | Some b \<Rightarrow> write b s0);
          s2 = (case VideoSeqHeader gc of None \<Rightarrow> s1 | Some b \<Rightarrow> write b s1);
          s3 = (case AACSeqHeader gc of None \<Rightarrow> s2 | Some b \<Rightarrow> write b s2);
          s4 = fold (\<lambda>i s. fold write (GetGOPDataAt gc i) s) [0 ..< GetGOPCount gc] s3
      in s4)"

definition forward :: "(bytes \<Rightarrow> Session \<Rightarrow> Session) \<Rightarrow> GOPCache \<Rightarrow> bytes \<Rightarrow> Session \<Rightarrow> Session" where
  "forward write gc current s =
     (let s1 = (if IsFresh s then (send_cached write gc s)\<lparr> IsFresh := False \<rparr> else s)
      in write current s1)"

definition forward_push ::
  "GOPCache \<Rightarrow> bytes \<Rightarrow> (string \<times> pushProxy) list \<Rightarrow> (nat \<Rightarrow> Session) \<Rightarrow> (nat \<Rightarrow> Session)" where
  "forward_push gc current m store =
     fold (\<lambda>(url, v) st. case pushSession v of
                            None \<Rightarrow> st
                          | Some p \<Rightarrow> st(p := forward AsyncWrite gc current (st p))) m store"

text \<open>\<open>broadcastRTMP\<close> (source lines 335 to 439). The sessions of a set are distinct
  objects and the caches do not change inside the loops, so the loop over a set updates
  every member of it in the same way, whatever the order.\<close>

definition broadcastRTMP :: "Config \<Rightarrow> Collab \<Rightarrow> AVMsg \<Rightarrow> Group \<Rightarrow> Group" where
  "broadcastRTMP cfg col m g0 =
     (let currHeader = (MakeDefaultRTMPHeader col (Header m))\<lparr> MsgLen := of_nat (length (Payload m)) \<rparr>;
          lcd = Message2Chunks col (Payload m) currHeader;
          lrm2ft = RTMPMsg2FLVTag col m;
          g1 = g0\<lparr> serverSessions :=
                    (\<lambda>p. if p \<in> members (rtmpSubSessionSet g0)
                         then forward AsyncWrite (gopCache g0) lcd (serverSessions g0 p)
                         else serverSessions g0 p) \<rparr>;
          g2 = (if RelayPushEnable cfg
                then g1\<lparr> pushSessions := forward_push (gopCache g1) lcd (proxies g1) (pushSessions g1) \<rparr>
                else g1);
          g3 = g2\<lparr> httpflvSessions :=
                    (\<lambda>p. if p \<in> members (httpflvSubSessionSet g2)
                         then forward WriteRawPacket (httpflvGopCache g2) lrm2ft (httpflvSessions g2 p)
                         else httpflvSessions g2 p) \<rparr>;
          g4 = (if RTMPEnable cfg
                then assign ''gopCache'' (\<lambda>g. g\<lparr> gopCache := Feed col (gopCache g) m lcd \<rparr>) g3
                else g3);
          g5 = (if HTTPFLVEnable cfg
                then assign ''httpflvGopCache''
                       (\<lambda>g. g\<lparr> httpflvGopCache := Feed col (httpflvGopCache g) m lrm2ft \<rparr>) g4
                else g4)
      in g5)"

text \<open>\<open>OnReadRTMPAVMsg\<close> (source lines 297 to 307).\<close>

definition OnReadRTMPAVMsg :: "Config \<Rightarrow> Collab \<Rightarrow> AVMsg \<Rightarrow> Group \<Rightarrow> Group" where
  "OnReadRTMPAVMsg cfg col m g0 =
     (let g1 = broadcastRTMP cfg col m (Lock g0);
          g2 = (case hlsMuxer g1 of
                  None \<Rightarrow> g1
                | Some mux \<Rightarrow>
                    if HLSEnable cfg
                    then assign ''hlsMuxer'' (\<lambda>g. g\<lparr> hlsMuxer := Some (FeedRTMPMessage m mux) \<rparr>) g1
                    else g1)
      in Unlock g2)"

text \<open>The replay prefix as a list: what \<open>send_cached\<close> writes, in order.\<close>

definition replay_prefix :: "GOPCache \<Rightarrow> bytes list" where
  "replay_prefix gc =
     (case Metadata gc of None \<Rightarrow> [] | Some b \<Rightarrow> [b]) @
     (case VideoSeqHeader gc of None \<Rightarrow> [] | Some b \<Rightarrow> [b]) @
     (case AACSeqHeader gc of None \<Rightarrow> [] | Some b \<Rightarrow> [b]) @
     concat (gops gc)"

subsection \<open>Calls of the group's methods in sequence\<close>

datatype call =
    CallTick
  | CallDispose
  | CallAddRTMPPubSession nat
  | CallDelRTMPPubSession nat
  | CallAddRTMPPullSession nat
  | CallDelRTMPPullSession nat
  | CallAddRTMPSubSession nat
  | CallDelRTMPSubSession nat
  | CallAddHTTPFLVSubSession nat
  | CallDelHTTPFLVSubSession nat
  | CallAddRTMPPushSession string nat
  | CallDelRTMPPushSession string nat
  | CallOnReadRTMPAVMsg AVMsg

fun exec :: "Config \<Rightarrow> Collab \<Rightarrow> call \<Rightarrow> Group \<Rightarrow> fault + Group" where
  "exec cfg col CallTick g = Inr (Tick cfg g)"
| "exec cfg col CallDispose g = Dispose cfg g"
| "exec cfg col (CallAddRTMPPubSession p) g = Inr (snd (AddRTMPPubSession cfg p g))"
| "exec cfg col (CallDelRTMPPubSession p) g = Inr (DelRTMPPubSession cfg p g)"
| "exec cfg col (CallAddRTMPPullSession p) g = Inr (AddRTMPPullSession cfg p g)"
| "exec cfg col (CallDelRTMPPullSession p) g = Inr (DelRTMPPullSession cfg p g)"
| "exec cfg col (CallAddRTMPSubSession p) g = AddRTMPSubSession cfg p g"
| "exec cfg col (CallDelRTMPSubSession p) g = Inr (DelRTMPSubSession p g)"
| "exec cfg col (CallAddHTTPFLVSubSession p) g = AddHTTPFLVSubSession cfg p g"
| "exec cfg col (CallDelHTTPFLVSubSession p) g = Inr (DelHTTPFLVSubSession p g)"
| "exec cfg col (CallAddRTMPPushSession url p) g = AddRTMPPushSession url p g"
| "exec cfg col (CallDelRTMPPushSession url p) g = DelRTMPPushSession url p g"
| "exec cfg col (CallOnReadRTMPAVMsg m) g = Inr (OnReadRTMPAVMsg cfg col m g)"

fun run_calls :: "Config \<Rightarrow> Collab \<Rightarrow> call list \<Rightarrow> Group \<Rightarrow> fault + Group" where
  "run_calls cfg col [] g = Inr g"
| "run_calls cfg col (c # cs) g =
     (case exec cfg col c g of Inl f \<Rightarrow> Inl f | Inr g' \<Rightarrow> run_calls cfg col cs g')"

fun sub_or_tick :: "call \<Rightarrow> bool" where
  "sub_or_tick CallTick = True"
| "sub_or_tick (CallAddRTMPSubSession p) = True"
| "sub_or_tick (CallAddHTTPFLVSubSession p) = True"
| "sub_or_tick c = False"

fun is_del_pull :: "call \<Rightarrow> bool" where
  "is_del_pull (CallDelRTMPPullSession p) = True"
| "is_del_pull c = False"

text \<open>The condition under which \<open>pullIfNeeded\<close> starts a task.\<close>

definition pull_needed :: "Config \<Rightarrow> Group \<Rightarrow> bool" where
  "pull_needed cfg g =
     (RelayPullEnable cfg \<and>
      (members (rtmpSubSessionSet g) \<noteq> {} \<or> members (httpflvSubSessionSet g) \<noteq> {}) \<and>
      pubSession g = None \<and> pullSession g = None \<and> \<not> isPulling g)"

text \<open>The bytes the current message is sent as: the chunked form to the RTMP and push
  sessions, the tag to the HTTP-FLV sessions (the values of \<open>lcd.Get()\<close> and
  \<open>lrm2ft.Get()\<close> in \<open>broadcastRTMP\<close>).\<close>

definition chunked :: "Collab \<Rightarrow> AVMsg \<Rightarrow> bytes" where
  "chunked col m =
     Message2Chunks col (Payload m)
       ((MakeDefaultRTMPHeader col (Header m))\<lparr> MsgLen := of_nat (length (Payload m)) \<rparr>)"

definition tagged :: "Collab \<Rightarrow> AVMsg \<Rightarrow> bytes" where
  "tagged col m = RTMPMsg2FLVTag col m"

definition fault_of :: "fault + Group \<Rightarrow> fault option" where
  "fault_of x = (case x of Inl f \<Rightarrow> Some f | Inr g \<Rightarrow> None)"

section \<open>Concrete inputs\<close>

text \<open>Two chunk streams interleaved, default chunk size 128. Chunk stream 6: a one-byte
  message, fmt 0, timestamp 520. Chunk stream 4: the first 128 bytes of a 200-byte message,
  fmt 0, timestamp 1000. Chunk stream 6: a one-byte message, fmt 1, delta 40. Chunk
  stream 4: the fmt-3 continuation with the last 72 bytes.\<close>

definition interleaved_input :: "byte list" where
  "interleaved_input =
     [0x06, 0x00,0x02,0x08, 0x00,0x00,0x01, 0x09, 0x01,0x00,0x00,0x00, 0xAA]
     @ [0x04, 0x00,0x03,0xE8, 0x00,0x00,0xC8, 0x09, 0x01,0x00,0x00,0x00] @ replicate 128 0
     @ [0x46, 0x00,0x00,0x28, 0x00,0x00,0x01, 0x09, 0xBB]
     @ [0xC4] @ replicate 72 0"

text \<open>Chunk stream 6: a one-byte message, fmt 0, timestamp 520; then a one-byte message,
  fmt 1, with the timestamp field 0xFFFFFF and the extended timestamp 0x01000000.\<close>

definition extended_input :: "byte list" where
  "extended_input =
     [0x06, 0x00,0x02,0x08, 0x00,0x00,0x01, 0x09, 0x01,0x00,0x00,0x00, 0xAA]
     @ [0x46, 0xFF,0xFF,0xFF, 0x00,0x00,0x01, 0x09, 0x01,0x00,0x00,0x00, 0xBB]"

text \<open>Chunk stream 4: the first 128 bytes of a 200-byte message, fmt 0, timestamp 1000.
  Chunk stream 2: a set-chunk-size message with the body 0x00001000. Chunk stream 4: the
  fmt-3 continuation with the last 72 bytes. Chunk stream 6: a 128-byte message, fmt 0,
  timestamp 520.\<close>

definition resize_input :: "byte list" where
  "resize_input =
     [0x04, 0x00,0x03,0xE8, 0x00,0x00,0xC8, 0x09, 0x01,0x00,0x00,0x00] @ replicate 128 0
     @ [0x02, 0x00,0x00,0x00, 0x00,0x00,0x04, 0x01, 0x00,0x00,0x00,0x00, 0x00,0x00,0x10,0x00]
     @ [0xC4] @ replicate 72 0
     @ [0x06, 0x00,0x02,0x08, 0x00,0x00,0x80, 0x09, 0x01,0x00,0x00,0x00] @ replicate 128 0"

text \<open>Chunk stream 2: a set-chunk-size message with the body 0x00001000; then a second
  message of type 1 that declares a length of two and carries the bytes 0x00 0x20; then a
  one-byte message on chunk stream 6.\<close>

definition short_body_input :: "byte list" where
  "short_body_input =
     [0x02, 0x00,0x00,0x00, 0x00,0x00,0x04, 0x01, 0x00,0x00,0x00,0x00, 0x00,0x00,0x10,0x00]
     @ [0x02, 0x00,0x00,0x00, 0x00,0x00,0x02, 0x01, 0x00,0x00,0x00,0x00, 0x00,0x20]
     @ [0x06, 0x00,0x02,0x08, 0x00,0x00,0x01, 0x09, 0x01,0x00,0x00,0x00, 0xAA]"

text \<open>Chunk stream 4: the first 128 bytes of a 200-byte message; then a fmt-0 chunk on
  the same chunk stream that declares a length of 100 and carries 100 bytes.\<close>

definition overrun_input :: "byte list" where
  "overrun_input =
     [0x04, 0x00,0x03,0xE8, 0x00,0x00,0xC8, 0x09, 0x01,0x00,0x00,0x00] @ replicate 128 0
     @ [0x04, 0x00,0x03,0xE8, 0x00,0x00,0x64, 0x09, 0x01,0x00,0x00,0x00] @ replicate 100 0"

text \<open>For a chunk stream of a loop state: the peer chunk size, the size of the next
  payload slice as the code computes it, and the minimum of the peer chunk size and the
  bytes that remain of the message.\<close>

definition slice_sizes ::
  "(ChunkComposer \<times> bool \<times> Reader) option \<Rightarrow> int \<Rightarrow> (u32 \<times> u32 \<times> u32) option" where
  "slice_sizes st csid =
     (case st of
        None \<Rightarrow> None
      | Some (c, f, r) \<Rightarrow>
          map_option (\<lambda>s. (peerChunkSize c, neededSize c s,
                            min (peerChunkSize c) (MsgLen (header s) - msg_len s)))
                     (csid2stream c csid))"

text \<open>A composer with peer chunk size 2 whose chunk stream \<open>csid\<close> holds two bytes of a
  three-byte message of type \<open>tid\<close>, the last header timestamp being \<open>ts\<close>.\<close>

definition partial_stream :: "byte \<Rightarrow> u32 \<Rightarrow> Stream" where
  "partial_stream tid ts =
     \<lparr> header = \<lparr> CSID = 0, MsgLen = 3, Timestamp = ts, MsgTypeID = tid,
                  MsgStreamID = 1, TimestampAbs = ts \<rparr>,
       msg = [1, 2], stale = [] \<rparr>"

definition partial_composer :: "int \<Rightarrow> byte \<Rightarrow> u32 \<Rightarrow> ChunkComposer" where
  "partial_composer csid tid ts =
     \<lparr> peerChunkSize = 2, csid2stream = [csid \<mapsto> partial_stream tid ts] \<rparr>"

text \<open>A configuration with relay push to one address and relay pull, and collaborators
  that pass the payload through.\<close>

definition relay_config :: Config where
  "relay_config =
     \<lparr> RelayPushEnable = True, RelayPushAddrList = [''127.0.0.1:1936''],
       RelayPullEnable = True, RelayPullAddr = ''127.0.0.1:1937'',
       HLSEnable = True, RTMPEnable = True, RTMPGOPNum = 1,
       HTTPFLVEnable = True, HTTPFLVGOPNum = 1 \<rparr>"

definition plain_collab :: Collab where
  "plain_collab =
     \<lparr> MakeDefaultRTMPHeader = (\<lambda>h. h),
       Message2Chunks = (\<lambda>payload h. payload),
       RTMPMsg2FLVTag = (\<lambda>m. Payload m),
       Feed = (\<lambda>gc m b. gc) \<rparr>"

definition test_group :: Group where
  "test_group = NewGroup relay_config ''GROUP1'' ''live'' ''test''"

definition test_msg :: "byte \<Rightarrow> AVMsg" where
  "test_msg b = \<lparr> Header = header NewStream, Payload = [b] \<rparr>"

text \<open>A cache holding metadata, both sequence headers and two GOPs.\<close>

definition full_cache :: GOPCache where
  "full_cache =
     \<lparr> gopNum = 2, Metadata = Some [1], VideoSeqHeader = Some [2], AACSeqHeader = Some [3],
       gops = [[[4], [5]], [[6]]] \<rparr>"

text \<open>The test group with RTMP subscriber 1 and HTTP-FLV subscriber 2, both caches full.\<close>

definition watched_group :: Group where
  "watched_group =
     test_group\<lparr> rtmpSubSessionSet := Some {1}, httpflvSubSessionSet := Some {2},
                 gopCache := full_cache, httpflvGopCache := full_cache \<rparr>"

definition subscriber_calls :: "call list" where
  "subscriber_calls =
     [CallAddRTMPSubSession 1, CallTick, CallAddHTTPFLVSubSession 2, CallAddRTMPSubSession 3, CallTick]"

section \<open>Properties of the chunk composer\<close>

lemma ReadAtLeast_ok:
  "n \<le> length (pending r) \<Longrightarrow>
   ReadAtLeast r n = Inr (take n (pending r), r\<lparr> pending := drop n (pending r) \<rparr>)"
  by (simp add: ReadAtLeast_def)

lemma ReadAtLeast_short:
  "length (pending r) < n \<Longrightarrow> \<exists>err. ReadAtLeast r n = Inl err"
  by (simp add: ReadAtLeast_def)

lemma header_produced: "header (produced bs s) = header s"
  by (simp add: produced_def)

lemma RunLoop_from_io:
  "read_chunk c f r = Inl err \<Longrightarrow> RunLoop_from cb c f r = (ReturnedIO err, [])"
  by (simp add: RunLoop_from.simps)

lemma finish_chunk_overrun:
  "MsgLen (header s) < msg_len s \<Longrightarrow>
     finish_chunk cb csid c s f = Stop (Panicked LengthOverrun) []"
  by (auto simp: finish_chunk_def)

lemma RunLoop_from_overrun:
  "read_chunk c f r = Inr (csid, fmt, c1, s, f1, r1) \<Longrightarrow> MsgLen (header s) < msg_len s \<Longrightarrow>
     RunLoop_from cb c f r = (Panicked LengthOverrun, [])"
  by (simp add: RunLoop_from.simps[of cb c f r] finish_chunk_overrun)

text \<open>Claim C1. The claim: for a message assembled from fmt-1 or fmt-2 chunks the absolute
  timestamp of its chunk stream grows by the header delta exactly once, when the terminal
  chunk is consumed, and only if no fmt-0 chunk occurred for that message; completing an
  interleaved message on another chunk stream neither suppresses nor duplicates it.
  What the code does on \<open>interleaved_input\<close>: the flag \<open>absTsFlag\<close> is one variable
  of the loop, shared by all chunk streams. The fmt-0 chunk on chunk stream 4 sets it, the
  fmt-1 message completed on chunk stream 6 finds it set and is delivered with 520 instead
  of 560, and the message of chunk stream 4, begun with fmt 0 at 1000, is completed with
  the flag cleared and delivered with 2000.\<close>

theorem interleaved_messages_timestamps:
  "observed (RunLoop accept_all NewChunkComposer (from_bytes interleaved_input)) =
     (ReturnedIO EOF, [(6, 520, 1), (6, 520, 1), (4, 2000, 200)])"
  by code_simp

text \<open>Claim C2. The claim: a fmt-1 or fmt-2 chunk with an extended timestamp adds exactly
  (extended value - 0xFFFFFF) to the absolute timestamp, once. What the code does on
  \<open>extended_input\<close>: from 520, the extended-timestamp branch gives 520 - 0xFFFFFF +
  0x1000000 = 521, and the completion of the message adds the extended value again:
  the message is delivered with 521 + 0x1000000 = 16777737.\<close>

theorem extended_delta_applied_twice:
  "observed (RunLoop accept_all NewChunkComposer (from_bytes extended_input)) =
     (ReturnedIO EOF, [(6, 520, 1), (6, 16777737, 1)])"
  by code_simp

text \<open>Claim C5. Whenever the timestamp of the chunk stream's header, as it stands after
  the message header of the chunk was read, is at least 0xFFFFFF (for fmt 0, 1 and 2 this
  is the 24-bit field of the chunk, for a fmt-3 continuation the value inherited from the
  earlier chunk), the next four bytes are read as a big-endian extended timestamp directly
  after the message header and before the payload; a source with fewer than four bytes
  left ends the chunk with the read error; for fmt 0 the four-byte value is also the
  absolute timestamp, and the flag that suppresses the accumulation at completion is set.\<close>

theorem extended_timestamp_follows_header:
  assumes bh: "read_basic_header r = Inr (fmt, csid, r1)"
    and gs: "getOrCreateStream c csid = (s0, c1)"
    and mh: "read_message_header fmt s0 flag r1 = Inr (s1, flag1, r2)"
    and big: "maxTimestampInMessageHeader \<le> Timestamp (header s1)"
  shows "(length (pending r2) < 4 \<longrightarrow> (\<exists>err. read_chunk c flag r = Inl err)) \<and>
         (4 \<le> length (pending r2) \<longrightarrow>
            (\<exists>s2. read_extended_timestamp fmt s1 r2 = Inr (s2, r2\<lparr> pending := drop 4 (pending r2) \<rparr>)
               \<and> Timestamp (header s2) = BEUint32 (take 4 (pending r2))
               \<and> (fmt = 0 \<longrightarrow> TimestampAbs (header s2) = BEUint32 (take 4 (pending r2)) \<and> flag1)
               \<and> msg s2 = msg s1
               \<and> read_chunk c flag r =
                   (case ReadAtLeast (r2\<lparr> pending := drop 4 (pending r2) \<rparr>) (unat (neededSize c1 s2)) of
                      Inl err \<Rightarrow> Inl err
                    | Inr (bs, r4) \<Rightarrow> Inr (csid, fmt, c1, produced bs s2, flag1, r4))))"
proof (intro conjI impI)
  assume short: "length (pending r2) < 4"
  then obtain err where "ReadAtLeast r2 4 = Inl err"
    using ReadAtLeast_short by blast
  then have "read_extended_timestamp fmt s1 r2 = Inl err"
    using big by (simp add: read_extended_timestamp_def)
  then show "\<exists>err. read_chunk c flag r = Inl err"
    using bh gs mh by (simp add: read_chunk_def)
next
  assume enough: "4 \<le> length (pending r2)"
  let ?r3 = "r2\<lparr> pending := drop 4 (pending r2) \<rparr>"
  let ?b = "take 4 (pending r2)"
  have rd: "ReadAtLeast r2 4 = Inr (?b, ?r3)"
    using enough by (rule ReadAtLeast_ok)
  obtain s2 where s2: "read_extended_timestamp fmt s1 r2 = Inr (s2, ?r3)"
    using big rd by (simp add: read_extended_timestamp_def Let_def)
  have ts: "Timestamp (header s2) = BEUint32 ?b"
    using s2 big rd by (auto simp: read_extended_timestamp_def Let_def)
  have ab: "fmt = 0 \<longrightarrow> TimestampAbs (header s2) = BEUint32 ?b"
    using s2 big rd by (auto simp: read_extended_timestamp_def Let_def)
  have fl: "fmt = 0 \<longrightarrow> flag1"
    using mh by (auto simp: read_message_header_def Let_def split: sum.splits)
  have ms: "msg s2 = msg s1"
    using s2 big rd by (auto simp: read_extended_timestamp_def Let_def)
  have rc: "read_chunk c flag r =
      (case ReadAtLeast ?r3 (unat (neededSize c1 s2)) of
         Inl err \<Rightarrow> Inl err
       | Inr (bs, r4) \<Rightarrow> Inr (csid, fmt, c1, produced bs s2, flag1, r4))"
    using bh gs mh s2 by (simp add: read_chunk_def)
  show "\<exists>s2. read_extended_timestamp fmt s1 r2 = Inr (s2, ?r3)
               \<and> Timestamp (header s2) = BEUint32 ?b
               \<and> (fmt = 0 \<longrightarrow> TimestampAbs (header s2) = BEUint32 ?b \<and> flag1)
               \<and> msg s2 = msg s1
               \<and> read_chunk c flag r =
                   (case ReadAtLeast ?r3 (unat (neededSize c1 s2)) of
                      Inl err \<Rightarrow> Inl err
                    | Inr (bs, r4) \<Rightarrow> Inr (csid, fmt, c1, produced bs s2, flag1, r4))"
    using s2 ts ab fl ms rc by blast
qed

theorem extended_timestamp_follows_header_witness:
  "maxTimestampInMessageHeader \<le> Timestamp (header (partial_stream 9 0x1000000)) \<and>
   (\<exists>s2 r3. read_extended_timestamp 3 (partial_stream 9 0x1000000)
               (from_bytes [0x01, 0x00, 0x00, 0x05, 0x07]) = Inr (s2, r3)
             \<and> pending r3 = [0x07]
             \<and> Timestamp (header s2) = 0x1000005
             \<and> read_chunk (partial_composer 6 9 0x1000000) False
                  (from_bytes [0xC6, 0x01, 0x00, 0x00, 0x05, 0x07])
                = Inr (6, 3, partial_composer 6 9 0x1000000, produced [0x07] s2, False, from_bytes []))"
proof -
  let ?c = "partial_composer 6 9 0x1000000"
  let ?s = "partial_stream 9 0x1000000"
  let ?r = "from_bytes [0xC6, 0x01, 0x00, 0x00, 0x05, 0x07]"
  let ?r1 = "from_bytes [0x01, 0x00, 0x00, 0x05, 0x07]"
  have bh: "read_basic_header ?r = Inr (3, 6, ?r1)"
    by (simp add: read_basic_header_def ReadAtLeast_def from_bytes_def)
  have gs: "getOrCreateStream ?c 6 = (?s, ?c)"
    by (simp add: getOrCreateStream_def partial_composer_def)
  have mh: "read_message_header 3 ?s False ?r1 = Inr (?s, False, ?r1)"
    by (simp add: read_message_header_def)
  have big: "maxTimestampInMessageHeader \<le> Timestamp (header ?s)"
    by (simp add: partial_stream_def maxTimestampInMessageHeader_def)
  have len: "4 \<le> length (pending ?r1)"
    by (simp add: from_bytes_def)
  from extended_timestamp_follows_header [OF bh gs mh big] len
  obtain s2 where
    e: "read_extended_timestamp 3 ?s ?r1 = Inr (s2, ?r1\<lparr> pending := drop 4 (pending ?r1) \<rparr>)" and
    t: "Timestamp (header s2) = BEUint32 (take 4 (pending ?r1))" and
    m: "msg s2 = msg ?s" and
    h: "read_chunk ?c False ?r =
          (case ReadAtLeast (?r1\<lparr> pending := drop 4 (pending ?r1) \<rparr>) (unat (neededSize ?c s2)) of
             Inl err \<Rightarrow> Inl err
           | Inr (bs, r4) \<Rightarrow> Inr (6, 3, ?c, produced bs s2, False, r4))"
    by blast
  have hd: "header s2 = (header ?s)\<lparr> Timestamp := 0x1000005 \<rparr>"
    using e by (auto simp: read_extended_timestamp_def ReadAtLeast_def from_bytes_def Let_def
                   BEUint32_def partial_stream_def maxTimestampInMessageHeader_def)
  have ns: "neededSize ?c s2 = 1"
    using hd m by (simp add: neededSize_def msg_len_def partial_composer_def partial_stream_def)
  have t': "Timestamp (header s2) = 0x1000005"
    using hd by simp
  have h': "read_chunk ?c False ?r = Inr (6, 3, ?c, produced [0x07] s2, False, from_bytes [])"
    using h ns by (simp add: ReadAtLeast_def from_bytes_def)
  have p: "pending (?r1\<lparr> pending := drop 4 (pending ?r1) \<rparr>) = [0x07]"
    by (simp add: from_bytes_def)
  show ?thesis using big e t' h' p by blast
qed

text \<open>Claim C6. The claim: a completed message of type 1 sets the peer chunk size from
  its four-byte big-endian body before the message is returned, so that every subsequent
  chunk's payload read is the minimum of the new chunk size and the remaining bytes of the
  message. What the code does on \<open>resize_input\<close>: after the set-chunk-size message was
  completed on chunk stream 2 the peer chunk size is 4096, and chunk stream 4 holds 128
  bytes of its 200-byte message. For the continuation chunk of chunk stream 4 the code
  takes the branch \<open>MsgLen \<le> peerChunkSize\<close> and asks for the whole message length, 200
  bytes, where the minimum of the new chunk size and the remaining bytes is 72 (the other
  branch does subtract the accumulated length). The read takes the 72 bytes and 128 bytes
  of the following chunk, 328 bytes stand against the declared 200, and RunLoop ends in
  the panic of its length check, having delivered the set-chunk-size message only.\<close>

theorem chunk_size_change_mid_message:
  "slice_sizes (run_chunks 2 accept_all NewChunkComposer False (from_bytes resize_input)) 4
     = Some (4096, 200, 72) \<and>
   observed (RunLoop accept_all NewChunkComposer (from_bytes resize_input))
     = (Panicked LengthOverrun, [(2, 0, 4)])"
  by code_simp

text \<open>The intercept itself: when a completed message has type id 1, the peer chunk size
  becomes the big-endian value of the first four bytes of the stream's buffer before the
  callback is given the message (the delivery records the new size, and the payload
  handed over is the body), and the loop goes on with that size. With a body of four bytes
  or more these are the first four bytes of the body. From then on the payload slice of a
  chunk is the minimum of the new chunk size and the bytes that remain of the message, for
  a chunk stream that has nothing accumulated yet or whose message is longer than the new
  chunk size.\<close>

lemma set_chunk_size_intercept:
  assumes complete: "msg_len s = MsgLen (header s)"
    and tid: "MsgTypeID (header s) = typeidSetChunkSize"
  shows "map snd (result_deliveries (finish_chunk cb csid c s flag)) = [BEUint32 (buf s)] \<and>
         map (msg \<circ> fst) (result_deliveries (finish_chunk cb csid c s flag)) = [msg s] \<and>
         (4 \<le> length (msg s) \<longrightarrow> BEUint32 (buf s) = BEUint32 (msg s)) \<and>
         (\<forall>c'. result_composer (finish_chunk cb csid c s flag) = Some c' \<longrightarrow>
            peerChunkSize c' = BEUint32 (buf s) \<and>
            (\<forall>t. (msg t = [] \<or> BEUint32 (buf s) < MsgLen (header t)) \<and> msg_len t \<le> MsgLen (header t)
                 \<longrightarrow> neededSize c' t = min (BEUint32 (buf s)) (MsgLen (header t) - msg_len t)))"
proof (intro conjI allI impI)
  show "map snd (result_deliveries (finish_chunk cb csid c s flag)) = [BEUint32 (buf s)]"
    using complete tid
    by (simp add: finish_chunk_def result_deliveries_def Let_def SetPeerChunkSize_def clear_def msg_len_def
             buf_def split: option.splits)
  show "map (msg \<circ> fst) (result_deliveries (finish_chunk cb csid c s flag)) = [msg s]"
    using complete tid
    by (simp add: finish_chunk_def result_deliveries_def Let_def SetPeerChunkSize_def clear_def msg_len_def
             split: option.splits)
  { assume long: "4 \<le> length (msg s)"
    have "buf s ! i = msg s ! i" if "i < 4" for i
      using that long by (simp add: buf_def nth_append)
    then show "BEUint32 (buf s) = BEUint32 (msg s)"
      by (simp add: BEUint32_def) }
  fix c'
  assume rc: "result_composer (finish_chunk cb csid c s flag) = Some c'"
  show pcs: "peerChunkSize c' = BEUint32 (buf s)"
    using rc complete tid
    by (auto simp: finish_chunk_def result_composer_def Let_def SetPeerChunkSize_def clear_def msg_len_def
             buf_def split: option.splits if_splits)
  fix t
  assume t: "(msg t = [] \<or> BEUint32 (buf s) < MsgLen (header t)) \<and> msg_len t \<le> MsgLen (header t)"
  then show "neededSize c' t = min (BEUint32 (buf s)) (MsgLen (header t) - msg_len t)"
    using pcs by (auto simp: neededSize_def Let_def msg_len_def min_def)
qed

text \<open>A body shorter than four bytes: on \<open>short_body_input\<close> the second message of type 1
  has the body 0x00 0x20, the buffer still holds 0x10 0x00 of the message before, and the
  peer chunk size becomes 0x00201000; all three messages are delivered.\<close>

lemma short_chunk_size_body_reads_stale_bytes:
  "map (\<lambda>(s, p). (CSID (header s), msg s, p))
       (snd (RunLoop accept_all NewChunkComposer (from_bytes short_body_input)))
     = [(2, [0x00, 0x00, 0x10, 0x00], 0x1000), (2, [0x00, 0x20], 0x201000), (6, [0xAA], 0x201000)]"
  by code_simp

text \<open>Claim C7, as stated, fails on \<open>overrun_input\<close>: chunk stream 4 has accumulated 128
  bytes when a fmt-0 chunk declares a length of 100 and brings 100 more; the accumulated
  228 bytes exceed the declared 100, and RunLoop does not return an error: it ends in the
  panic of \<open>log.Panicf\<close>.\<close>

theorem length_overrun_panics:
  "fst (RunLoop accept_all NewChunkComposer (from_bytes overrun_input)) = Panicked LengthOverrun"
  by code_simp

text \<open>Claim C7, amended. A short read at any of the places where the loop reads (the
  basic header, the message header, the extended timestamp, the payload) ends RunLoop
  with that I/O error returned to the caller; when the accumulated payload has become
  longer than the length declared in the header, RunLoop ends in the panic of
  \<open>log.Panicf\<close> and returns nothing.\<close>

theorem overrun_panics_short_read_returns:
  "(read_basic_header r = Inl err \<longrightarrow> RunLoop_from cb c f r = (ReturnedIO err, [])) \<and>
   (read_basic_header r = Inr (fmt, csid, r1) \<and> getOrCreateStream c csid = (s0, c1) \<longrightarrow>
      (read_message_header fmt s0 f r1 = Inl err \<longrightarrow> RunLoop_from cb c f r = (ReturnedIO err, [])) \<and>
      (read_message_header fmt s0 f r1 = Inr (s1, f1, r2) \<longrightarrow>
         (read_extended_timestamp fmt s1 r2 = Inl err \<longrightarrow> RunLoop_from cb c f r = (ReturnedIO err, [])) \<and>
         (read_extended_timestamp fmt s1 r2 = Inr (s2, r3) \<longrightarrow>
            (ReadAtLeast r3 (unat (neededSize c1 s2)) = Inl err \<longrightarrow>
               RunLoop_from cb c f r = (ReturnedIO err, [])) \<and>
            (ReadAtLeast r3 (unat (neededSize c1 s2)) = Inr (bs, r4) \<and>
             MsgLen (header s2) < msg_len (produced bs s2) \<longrightarrow>
               RunLoop_from cb c f r = (Panicked LengthOverrun, [])))))"
  by (auto simp: read_chunk_def header_produced intro!: RunLoop_from_io RunLoop_from_overrun)

text \<open>Both kinds of ending at concrete inputs: an exhausted source, and a chunk that
  makes three accumulated bytes stand against a declared length of one.\<close>

theorem overrun_panics_short_read_returns_witness:
  "read_basic_header (from_bytes []) = Inl EOF \<and>
   RunLoop_from accept_all (partial_composer 4 9 0) False (from_bytes []) = (ReturnedIO EOF, []) \<and>
   neededSize (partial_composer 4 9 0)
     ((partial_stream 9 0)\<lparr> header := (header (partial_stream 9 0))\<lparr> MsgLen := 1 \<rparr> \<rparr>) = 1 \<and>
   RunLoop_from accept_all (partial_composer 4 9 0) False
     (from_bytes [0x04, 0x00,0x00,0x00, 0x00,0x00,0x01, 0x09, 0x01,0x00,0x00,0x00, 0x07])
     = (Panicked LengthOverrun, [])"
proof -
  let ?c = "partial_composer 4 9 0"
  let ?s0 = "partial_stream 9 0"
  let ?s1 = "?s0\<lparr> header := (header ?s0)\<lparr> MsgLen := 1 \<rparr> \<rparr>"
  let ?r = "from_bytes [0x04, 0x00,0x00,0x00, 0x00,0x00,0x01, 0x09, 0x01,0x00,0x00,0x00, 0x07]"
  let ?r1 = "from_bytes [0x00,0x00,0x00, 0x00,0x00,0x01, 0x09, 0x01,0x00,0x00,0x00, 0x07]"
  let ?r2 = "from_bytes [0x07]"
  have e0: "read_basic_header (from_bytes []) = Inl EOF"
    by (simp add: read_basic_header_def ReadAtLeast_def from_bytes_def)
  have bh: "read_basic_header ?r = Inr (0, 4, ?r1)"
    by (simp add: read_basic_header_def ReadAtLeast_def from_bytes_def)
  have gs: "getOrCreateStream ?c 4 = (?s0, ?c)"
    by (simp add: getOrCreateStream_def partial_composer_def)
  have mh: "read_message_header 0 ?s0 False ?r1 = Inr (?s1, True, ?r2)"
    by (simp add: read_message_header_def ReadAtLeast_def from_bytes_def Let_def reserve_def
          BEUint24_def LEUint32_def partial_stream_def)
  have et: "read_extended_timestamp 0 ?s1 ?r2 = Inr (?s1, ?r2)"
    by (simp add: read_extended_timestamp_def maxTimestampInMessageHeader_def partial_stream_def)
  have ns: "neededSize ?c ?s1 = 1"
    by (simp add: neededSize_def partial_composer_def partial_stream_def)
  have pl: "ReadAtLeast ?r2 (unat (neededSize ?c ?s1)) = Inr ([0x07], from_bytes [])"
    by (simp add: ns ReadAtLeast_def from_bytes_def)
  have ov: "MsgLen (header ?s1) < msg_len (produced [0x07] ?s1)"
    by (simp add: msg_len_def produced_def partial_stream_def)
  note th = overrun_panics_short_read_returns
  from th [of "from_bytes []" EOF accept_all ?c False] e0
  have io: "RunLoop_from accept_all ?c False (from_bytes []) = (ReturnedIO EOF, [])"
    by blast
  from th [of ?r _ accept_all ?c False 0 4 ?r1 ?s0 ?c ?s1 True ?r2 ?s1 ?r2 "[0x07]" "from_bytes []"]
    bh gs mh et pl ov
  have pn: "RunLoop_from accept_all ?c False ?r = (Panicked LengthOverrun, [])"
    by blast
  from e0 io ns pn show ?thesis by blast
qed

section \<open>Properties of the group\<close>

lemma sent_fold_AsyncWrite: "sent (fold AsyncWrite bs s) = sent s @ map Raw bs"
  by (induction bs arbitrary: s) (simp_all add: AsyncWrite_def)

lemma sent_fold_WriteRawPacket: "sent (fold WriteRawPacket bs s) = sent s @ map Raw bs"
  by (induction bs arbitrary: s) (simp_all add: WriteRawPacket_def)

lemma sent_fold_gops:
  assumes "\<And>bs s. sent (fold write bs s) = sent s @ map Raw bs"
  shows "sent (fold (\<lambda>i s. fold write (f i) s) is s) = sent s @ map Raw (concat (map f is))"
  by (induction "is" arbitrary: s) (simp_all add: assms)

lemma concat_by_index: "concat (map (\<lambda>i. xs ! i) [0 ..< length xs]) = concat xs"
  by (simp add: map_nth)

lemma sent_send_cached:
  assumes w: "\<And>b s. sent (write b s) = sent s @ [Raw b]"
    and f: "\<And>bs s. sent (fold write bs s) = sent s @ map Raw bs"
  shows "sent (send_cached write gc s) = sent s @ map Raw (replay_prefix gc)"
  unfolding send_cached_def replay_prefix_def Let_def GetGOPCount_def GetGOPDataAt_def
  by (simp add: sent_fold_gops [OF f] w concat_by_index split: option.splits)

lemma sent_forward:
  assumes w: "\<And>b s. sent (write b s) = sent s @ [Raw b]"
    and f: "\<And>bs s. sent (fold write bs s) = sent s @ map Raw bs"
  shows "sent (forward write gc cur s) =
           sent s @ map Raw ((if IsFresh s then replay_prefix gc else []) @ [cur])"
  by (simp add: forward_def Let_def w sent_send_cached [OF w f])

lemma fresh_forward:
  assumes "\<And>b s. IsFresh (write b s) = IsFresh s"
  shows "\<not> IsFresh (forward write gc cur s)"
  by (simp add: forward_def Let_def assms)

lemma sent_forward_AsyncWrite:
  "sent (forward AsyncWrite gc cur s) =
     sent s @ map Raw ((if IsFresh s then replay_prefix gc else []) @ [cur])"
  by (rule sent_forward) (simp_all add: AsyncWrite_def sent_fold_AsyncWrite)

lemma sent_forward_WriteRawPacket:
  "sent (forward WriteRawPacket gc cur s) =
     sent s @ map Raw ((if IsFresh s then replay_prefix gc else []) @ [cur])"
  by (rule sent_forward) (simp_all add: WriteRawPacket_def sent_fold_WriteRawPacket)

lemma stale_forward_AsyncWrite: "\<not> IsFresh (forward AsyncWrite gc cur s)"
  by (rule fresh_forward) (simp add: AsyncWrite_def)

lemma stale_forward_WriteRawPacket: "\<not> IsFresh (forward WriteRawPacket gc cur s)"
  by (rule fresh_forward) (simp add: WriteRawPacket_def)

lemma broadcast_serverSessions:
  "serverSessions (broadcastRTMP cfg col m g) p =
     (if p \<in> members (rtmpSubSessionSet g)
      then forward AsyncWrite (gopCache g) (chunked col m) (serverSessions g p)
      else serverSessions g p)"
  by (simp add: broadcastRTMP_def Let_def assign_def chunked_def)

lemma broadcast_httpflvSessions:
  "httpflvSessions (broadcastRTMP cfg col m g) p =
     (if p \<in> members (httpflvSubSessionSet g)
      then forward WriteRawPacket (httpflvGopCache g) (tagged col m) (httpflvSessions g p)
      else httpflvSessions g p)"
  by (simp add: broadcastRTMP_def Let_def assign_def tagged_def)

lemma broadcast_sets:
  "rtmpSubSessionSet (broadcastRTMP cfg col m g) = rtmpSubSessionSet g"
  "httpflvSubSessionSet (broadcastRTMP cfg col m g) = httpflvSubSessionSet g"
  by (simp_all add: broadcastRTMP_def Let_def assign_def)

text \<open>Claim C3. In a broadcast every RTMP subscriber of the group is sent, after what it
  was sent before: if its latch \<open>IsFresh\<close> is set, the replay prefix of the RTMP cache
  (the cached metadata, video sequence header and audio sequence header, each if present,
  then every message of every cached GOP in cache order); and then the current message in
  chunked form. After the broadcast its latch is cleared, and the next broadcast sends it
  the next message only. The same holds for every HTTP-FLV subscriber, with the HTTP-FLV
  cache and the tag form of the message.\<close>

theorem fresh_subscriber_replay:
  "(\<forall>p \<in> members (rtmpSubSessionSet g).
      sent (serverSessions (broadcastRTMP cfg col m g) p) =
        sent (serverSessions g p) @
          map Raw ((if IsFresh (serverSessions g p) then replay_prefix (gopCache g) else [])
                   @ [chunked col m]) \<and>
      \<not> IsFresh (serverSessions (broadcastRTMP cfg col m g) p) \<and>
      sent (serverSessions (broadcastRTMP cfg col m' (broadcastRTMP cfg col m g)) p) =
        sent (serverSessions (broadcastRTMP cfg col m g) p) @ [Raw (chunked col m')]) \<and>
   (\<forall>p \<in> members (httpflvSubSessionSet g).
      sent (httpflvSessions (broadcastRTMP cfg col m g) p) =
        sent (httpflvSessions g p) @
          map Raw ((if IsFresh (httpflvSessions g p) then replay_prefix (httpflvGopCache g) else [])
                   @ [tagged col m]) \<and>
      \<not> IsFresh (httpflvSessions (broadcastRTMP cfg col m g) p) \<and>
      sent (httpflvSessions (broadcastRTMP cfg col m' (broadcastRTMP cfg col m g)) p) =
        sent (httpflvSessions (broadcastRTMP cfg col m g) p) @ [Raw (tagged col m')]) \<and>
   replay_prefix (gopCache g) =
     (case Metadata (gopCache g) of None \<Rightarrow> [] | Some b \<Rightarrow> [b]) @
     (case VideoSeqHeader (gopCache g) of None \<Rightarrow> [] | Some b \<Rightarrow> [b]) @
     (case AACSeqHeader (gopCache g) of None \<Rightarrow> [] | Some b \<Rightarrow> [b]) @
     concat (gops (gopCache g))"
proof (intro conjI ballI)
  fix p assume p: "p \<in> members (rtmpSubSessionSet g)"
  show "sent (serverSessions (broadcastRTMP cfg col m g) p) =
        sent (serverSessions g p) @
          map Raw ((if IsFresh (serverSessions g p) then replay_prefix (gopCache g) else [])
                   @ [chunked col m])"
    using p by (simp add: broadcast_serverSessions sent_forward_AsyncWrite)
  show st: "\<not> IsFresh (serverSessions (broadcastRTMP cfg col m g) p)"
    using p by (simp add: broadcast_serverSessions stale_forward_AsyncWrite)
  have "p \<in> members (rtmpSubSessionSet (broadcastRTMP cfg col m g))"
    using p by (simp add: broadcast_sets)
  then show "sent (serverSessions (broadcastRTMP cfg col m' (broadcastRTMP cfg col m g)) p) =
        sent (serverSessions (broadcastRTMP cfg col m g) p) @ [Raw (chunked col m')]"
    using st by (simp add: broadcast_serverSessions [of cfg col m'] sent_forward_AsyncWrite)
next
  fix p assume p: "p \<in> members (httpflvSubSessionSet g)"
  show "sent (httpflvSessions (broadcastRTMP cfg col m g) p) =
        sent (httpflvSessions g p) @
          map Raw ((if IsFresh (httpflvSessions g p) then replay_prefix (httpflvGopCache g) else [])
                   @ [tagged col m])"
    using p by (simp add: broadcast_httpflvSessions sent_forward_WriteRawPacket)
  show st: "\<not> IsFresh (httpflvSessions (broadcastRTMP cfg col m g) p)"
    using p by (simp add: broadcast_httpflvSessions stale_forward_WriteRawPacket)
  have "p \<in> members (httpflvSubSessionSet (broadcastRTMP cfg col m g))"
    using p by (simp add: broadcast_sets)
  then show "sent (httpflvSessions (broadcastRTMP cfg col m' (broadcastRTMP cfg col m g)) p) =
        sent (httpflvSessions (broadcastRTMP cfg col m g) p) @ [Raw (tagged col m')]"
    using st by (simp add: broadcast_httpflvSessions [of cfg col m'] sent_forward_WriteRawPacket)
next
  show "replay_prefix (gopCache g) =
     (case Metadata (gopCache g) of None \<Rightarrow> [] | Some b \<Rightarrow> [b]) @
     (case VideoSeqHeader (gopCache g) of None \<Rightarrow> [] | Some b \<Rightarrow> [b]) @
     (case AACSeqHeader (gopCache g) of None \<Rightarrow> [] | Some b \<Rightarrow> [b]) @
     concat (gops (gopCache g))"
    by (simp add: replay_prefix_def)
qed

text \<open>A fresh RTMP subscriber and a fresh HTTP-FLV subscriber of \<open>watched_group\<close> over
  two broadcasts.\<close>

theorem fresh_subscriber_replay_witness:
  "1 \<in> members (rtmpSubSessionSet watched_group) \<and>
   IsFresh (serverSessions watched_group 1) \<and>
   sent (serverSessions (broadcastRTMP relay_config plain_collab (test_msg 9) watched_group) 1)
     = map Raw [[1], [2], [3], [4], [5], [6], [9]] \<and>
   sent (serverSessions (broadcastRTMP relay_config plain_collab (test_msg 10)
           (broadcastRTMP relay_config plain_collab (test_msg 9) watched_group)) 1)
     = map Raw [[1], [2], [3], [4], [5], [6], [9], [10]] \<and>
   2 \<in> members (httpflvSubSessionSet watched_group) \<and>
   sent (httpflvSessions (broadcastRTMP relay_config plain_collab (test_msg 9) watched_group) 2)
     = map Raw [[1], [2], [3], [4], [5], [6], [9]]"
proof -
  have m1: "1 \<in> members (rtmpSubSessionSet watched_group)"
    by (simp add: watched_group_def members_def)
  have m2: "2 \<in> members (httpflvSubSessionSet watched_group)"
    by (simp add: watched_group_def members_def)
  have s1: "serverSessions watched_group p = NewSession" for p
    by (simp add: watched_group_def test_group_def NewGroup_def)
  have s2: "httpflvSessions watched_group p = NewSession" for p
    by (simp add: watched_group_def test_group_def NewGroup_def)
  have c: "gopCache watched_group = full_cache" "httpflvGopCache watched_group = full_cache"
    by (simp_all add: watched_group_def)
  have rp: "replay_prefix full_cache = [[1], [2], [3], [4], [5], [6]]"
    by (simp add: replay_prefix_def full_cache_def)
  have ch: "chunked plain_collab (test_msg b) = [b]" "tagged plain_collab (test_msg b) = [b]" for b
    by (simp_all add: chunked_def tagged_def plain_collab_def test_msg_def)
  note th = fresh_subscriber_replay [of watched_group relay_config plain_collab "test_msg 9" "test_msg 10"]
  from th m1 have a:
    "sent (serverSessions (broadcastRTMP relay_config plain_collab (test_msg 9) watched_group) 1) =
       sent (serverSessions watched_group 1) @
         map Raw ((if IsFresh (serverSessions watched_group 1) then replay_prefix (gopCache watched_group) else [])
                  @ [chunked plain_collab (test_msg 9)])"
    and b:
    "sent (serverSessions (broadcastRTMP relay_config plain_collab (test_msg 10)
           (broadcastRTMP relay_config plain_collab (test_msg 9) watched_group)) 1) =
       sent (serverSessions (broadcastRTMP relay_config plain_collab (test_msg 9) watched_group) 1)
         @ [Raw (chunked plain_collab (test_msg 10))]"
    by blast+
  from th m2 have d:
    "sent (httpflvSessions (broadcastRTMP relay_config plain_collab (test_msg 9) watched_group) 2) =
       sent (httpflvSessions watched_group 2) @
         map Raw ((if IsFresh (httpflvSessions watched_group 2) then replay_prefix (httpflvGopCache watched_group) else [])
                  @ [tagged plain_collab (test_msg 9)])"
    by blast
  have a': "sent (serverSessions (broadcastRTMP relay_config plain_collab (test_msg 9) watched_group) 1)
     = map Raw [[1], [2], [3], [4], [5], [6], [9]]"
    unfolding a by (simp add: s1 c rp ch NewSession_def)
  have b': "sent (serverSessions (broadcastRTMP relay_config plain_collab (test_msg 10)
           (broadcastRTMP relay_config plain_collab (test_msg 9) watched_group)) 1)
     = map Raw [[1], [2], [3], [4], [5], [6], [9], [10]]"
    unfolding b a' by (simp add: ch)
  have d': "sent (httpflvSessions (broadcastRTMP relay_config plain_collab (test_msg 9) watched_group) 2)
     = map Raw [[1], [2], [3], [4], [5], [6], [9]]"
    unfolding d by (simp add: s2 c rp ch NewSession_def)
  have f: "IsFresh (serverSessions watched_group 1)"
    by (simp add: s1 NewSession_def)
  from m1 f a' b' m2 d' show ?thesis by blast
qed

lemma pubSession_pushIfNeeded: "pubSession (pushIfNeeded cfg g) = pubSession g"
  by (simp add: pushIfNeeded_def assign_def Let_def)

text \<open>Claim C4. With a publisher installed, \<open>AddRTMPPubSession\<close> returns false and
  leaves the group as it was (the mutex released again). With none installed it
  returns true and the session is the publisher. After \<open>DelRTMPPubSession\<close> no publisher
  is installed, and a following \<open>AddRTMPPubSession\<close> returns true and installs its
  session.\<close>

theorem publisher_uniqueness:
  "(pubSession g \<noteq> None \<longrightarrow> AddRTMPPubSession cfg s g = (False, g\<lparr> mutex := False \<rparr>)) \<and>
   (pubSession g = None \<longrightarrow>
      fst (AddRTMPPubSession cfg s g) \<and> pubSession (snd (AddRTMPPubSession cfg s g)) = Some s) \<and>
   pubSession (DelRTMPPubSession cfg s' g) = None \<and>
   fst (AddRTMPPubSession cfg s (DelRTMPPubSession cfg s' g)) \<and>
   pubSession (snd (AddRTMPPubSession cfg s (DelRTMPPubSession cfg s' g))) = Some s"
proof -
  have add: "fst (AddRTMPPubSession cfg s h) \<and> pubSession (snd (AddRTMPPubSession cfg s h)) = Some s"
    if "pubSession h = None" for h
    using that
    by (simp add: AddRTMPPubSession_def Let_def Lock_def Unlock_def assign_def pubSession_pushIfNeeded)
  have rej: "AddRTMPPubSession cfg s g = (False, g\<lparr> mutex := False \<rparr>)" if "pubSession g \<noteq> None"
    using that by (auto simp: AddRTMPPubSession_def Let_def Lock_def Unlock_def)
  have del: "pubSession (DelRTMPPubSession cfg s' g) = None"
    by (simp add: DelRTMPPubSession_def Let_def Lock_def Unlock_def assign_def)
  show ?thesis using add [of g] add [OF del] rej del by blast
qed

text \<open>Add, add again, delete and add on \<open>test_group\<close>.\<close>

theorem publisher_uniqueness_witness:
  "pubSession test_group = None \<and>
   fst (AddRTMPPubSession relay_config 1 test_group) \<and>
   pubSession (snd (AddRTMPPubSession relay_config 1 test_group)) = Some 1 \<and>
   \<not> fst (AddRTMPPubSession relay_config 2 (snd (AddRTMPPubSession relay_config 1 test_group))) \<and>
   pubSession (snd (AddRTMPPubSession relay_config 2 (snd (AddRTMPPubSession relay_config 1 test_group))))
     = Some 1 \<and>
   fst (AddRTMPPubSession relay_config 2
          (DelRTMPPubSession relay_config 1 (snd (AddRTMPPubSession relay_config 1 test_group))))"
proof -
  let ?g1 = "snd (AddRTMPPubSession relay_config 1 test_group)"
  have n: "pubSession test_group = None"
    by (simp add: test_group_def NewGroup_def)
  from publisher_uniqueness [of test_group relay_config 1] n
  have a: "fst (AddRTMPPubSession relay_config 1 test_group)" and b: "pubSession ?g1 = Some 1"
    by blast+
  from b have ne: "pubSession ?g1 \<noteq> None" by simp
  from publisher_uniqueness [of ?g1 relay_config 2 1] ne
  have c: "AddRTMPPubSession relay_config 2 ?g1 = (False, ?g1\<lparr> mutex := False \<rparr>)"
    and d: "fst (AddRTMPPubSession relay_config 2 (DelRTMPPubSession relay_config 1 ?g1))"
    by blast+
  from c b have e: "\<not> fst (AddRTMPPubSession relay_config 2 ?g1)"
    and f: "pubSession (snd (AddRTMPPubSession relay_config 2 ?g1)) = Some 1"
    by simp_all
  from n a b e f d show ?thesis by blast
qed

text \<open>Claim C9. The claim: every operation that changes group state does so while holding
  the group mutex, \<open>AddRTMPPullSession\<close> and \<open>DelRTMPPullSession\<close> included. What the code
  does: these two lock the mutex and unlock it at once; the pull session, the flag
  \<open>isPulling\<close>, the HLS muxer and both GOP caches are then written with the mutex not
  held, for every group and every configuration. Their siblings \<open>AddRTMPPubSession\<close> and
  \<open>DelRTMPPubSession\<close> defer the unlock and write nothing without the mutex.\<close>

theorem pull_session_written_without_mutex:
  "unguarded (AddRTMPPullSession cfg p g) =
     unguarded g @ ''pullSession'' # (if HLSEnable cfg then [''hlsMuxer''] else []) \<and>
   unguarded (DelRTMPPullSession cfg p g) =
     unguarded g @ [''pullSession'', ''isPulling'']
       @ (if HLSEnable cfg \<and> hlsMuxer g \<noteq> None then [''hlsMuxer''] else [])
       @ [''gopCache'', ''httpflvGopCache''] \<and>
   unguarded (snd (AddRTMPPubSession cfg p g)) = unguarded g \<and>
   unguarded (DelRTMPPubSession cfg p g) = unguarded g"
proof (intro conjI)
  show "unguarded (AddRTMPPullSession cfg p g) =
     unguarded g @ ''pullSession'' # (if HLSEnable cfg then [''hlsMuxer''] else [])"
    by (simp add: AddRTMPPullSession_def Let_def Lock_def Unlock_def assign_def)
  show "unguarded (DelRTMPPullSession cfg p g) =
     unguarded g @ [''pullSession'', ''isPulling'']
       @ (if HLSEnable cfg \<and> hlsMuxer g \<noteq> None then [''hlsMuxer''] else [])
       @ [''gopCache'', ''httpflvGopCache'']"
    by (simp add: DelRTMPPullSession_def Let_def Lock_def Unlock_def assign_def)
  show "unguarded (snd (AddRTMPPubSession cfg p g)) = unguarded g"
    by (simp add: AddRTMPPubSession_def Let_def Lock_def Unlock_def assign_def pushIfNeeded_def)
  show "unguarded (DelRTMPPubSession cfg p g) = unguarded g"
    by (simp add: DelRTMPPubSession_def Let_def Lock_def Unlock_def assign_def)
qed

lemma map_of_proxy_put:
  "map_of (proxy_put url v m) k = (if k = url then Some v else map_of m k)"
  by (induction m) auto

lemma map_of_fold_proxy_put:
  "(map_of (fold (\<lambda>addr m. proxy_put (f addr) v m) addrs m0) url \<noteq> None)
     = (url \<in> f ` set addrs \<or> map_of m0 url \<noteq> None)"
  by (induction addrs arbitrary: m0) (auto simp: map_of_proxy_put)

text \<open>Claim C10, as stated, fails on a disposed group: \<open>Dispose\<close> with relay push enabled
  sets the push-proxy map to nil, and from then on \<open>AddRTMPPushSession\<close> and
  \<open>DelRTMPPushSession\<close> return without a panic for a url that is no key of the map.\<close>

theorem push_session_on_disposed_group:
  "map_of (proxies test_group) ''rtmp://elsewhere/live/test'' = None \<and>
   fault_of (run_calls relay_config plain_collab
               [CallDispose, CallAddRTMPPushSession ''rtmp://elsewhere/live/test'' 7,
                CallDelRTMPPushSession ''rtmp://elsewhere/live/test'' 7] test_group) = None"
  by (simp add: test_group_def relay_config_def NewGroup_def proxies_def relay_url_def
        Dispose_def Let_def Lock_def Unlock_def assign_def members_def NewGOPCache_def
        dispose_push_sessions_def AddRTMPPushSession_def DelRTMPPushSession_def fault_of_def)

text \<open>Claim C10, amended. While the push-proxy map of the group is not nil,
  \<open>AddRTMPPushSession\<close> and \<open>DelRTMPPushSession\<close> panic with a nil dereference for every
  url that is not a key of the map, and return for every url that is; once the map is nil
  they return for every url and change nothing. A new group has a map that is not nil,
  and its keys are the urls built from the relay-push address list when relay push is
  enabled, and none otherwise.\<close>

theorem push_session_url_precondition:
  "(url2PushProxy g = Some m \<and> map_of m url = None \<longrightarrow>
      AddRTMPPushSession url s g = Inl NilDereference \<and>
      DelRTMPPushSession url s g = Inl NilDereference) \<and>
   (url2PushProxy g = Some m \<and> map_of m url \<noteq> None \<longrightarrow>
      fault_of (AddRTMPPushSession url s g) = None \<and>
      fault_of (DelRTMPPushSession url s g) = None) \<and>
   (url2PushProxy g = None \<longrightarrow>
      AddRTMPPushSession url s g = Inr (g\<lparr> mutex := False \<rparr>) \<and>
      DelRTMPPushSession url s g = Inr (g\<lparr> mutex := False \<rparr>)) \<and>
   url2PushProxy (NewGroup cfg uk app stream) \<noteq> None \<and>
   (map_of (proxies (NewGroup cfg uk app stream)) url \<noteq> None
      \<longleftrightarrow> RelayPushEnable cfg \<and> url \<in> (\<lambda>addr. relay_url addr app stream) ` set (RelayPushAddrList cfg))"
proof (intro conjI impI)
  assume a: "url2PushProxy g = Some m \<and> map_of m url = None"
  then show "AddRTMPPushSession url s g = Inl NilDereference"
    by (simp add: AddRTMPPushSession_def Let_def Lock_def)
  from a show "DelRTMPPushSession url s g = Inl NilDereference"
    by (simp add: DelRTMPPushSession_def Let_def Lock_def)
next
  assume a: "url2PushProxy g = Some m \<and> map_of m url \<noteq> None"
  then show "fault_of (AddRTMPPushSession url s g) = None"
    by (auto simp: AddRTMPPushSession_def Let_def Lock_def fault_of_def)
  from a show "fault_of (DelRTMPPushSession url s g) = None"
    by (auto simp: DelRTMPPushSession_def Let_def Lock_def fault_of_def)
next
  assume a: "url2PushProxy g = None"
  then show "AddRTMPPushSession url s g = Inr (g\<lparr> mutex := False \<rparr>)"
    by (simp add: AddRTMPPushSession_def Let_def Lock_def Unlock_def)
  from a show "DelRTMPPushSession url s g = Inr (g\<lparr> mutex := False \<rparr>)"
    by (simp add: DelRTMPPushSession_def Let_def Lock_def Unlock_def)
next
  show "url2PushProxy (NewGroup cfg uk app stream) \<noteq> None"
    by (simp add: NewGroup_def)
  show "(map_of (proxies (NewGroup cfg uk app stream)) url \<noteq> None)
      = (RelayPushEnable cfg \<and> url \<in> (\<lambda>addr. relay_url addr app stream) ` set (RelayPushAddrList cfg))"
    using map_of_fold_proxy_put [of "\<lambda>addr. relay_url addr app stream"
            "\<lparr> isPushing = False, pushSession = None \<rparr>" "RelayPushAddrList cfg" "[]" url]
    by (auto simp: NewGroup_def proxies_def)
qed

text \<open>An unknown url and the configured url on \<open>test_group\<close>.\<close>

theorem push_session_url_precondition_witness:
  "url2PushProxy test_group = Some (proxies test_group) \<and>
   map_of (proxies test_group) ''rtmp://elsewhere/live/test'' = None \<and>
   AddRTMPPushSession ''rtmp://elsewhere/live/test'' 7 test_group = Inl NilDereference \<and>
   DelRTMPPushSession ''rtmp://elsewhere/live/test'' 7 test_group = Inl NilDereference \<and>
   map_of (proxies test_group) ''rtmp://127.0.0.1:1936/live/test'' \<noteq> None \<and>
   fault_of (AddRTMPPushSession ''rtmp://127.0.0.1:1936/live/test'' 7 test_group) = None \<and>
   fault_of (DelRTMPPushSession ''rtmp://127.0.0.1:1936/live/test'' 7 test_group) = None"
proof -
  have m: "url2PushProxy test_group = Some (proxies test_group)"
    by (simp add: proxies_def test_group_def NewGroup_def)
  have a: "map_of (proxies test_group) ''rtmp://elsewhere/live/test'' = None"
    by (simp add: proxies_def test_group_def NewGroup_def relay_config_def relay_url_def)
  have p: "map_of (proxies test_group) ''rtmp://127.0.0.1:1936/live/test'' \<noteq> None"
    by (simp add: proxies_def test_group_def NewGroup_def relay_config_def relay_url_def)
  note th = push_session_url_precondition
  from th [of test_group "proxies test_group" "''rtmp://elsewhere/live/test''" 7] m a
  have b: "AddRTMPPushSession ''rtmp://elsewhere/live/test'' 7 test_group = Inl NilDereference"
    and c: "DelRTMPPushSession ''rtmp://elsewhere/live/test'' 7 test_group = Inl NilDereference"
    by blast+
  from th [of test_group "proxies test_group" "''rtmp://127.0.0.1:1936/live/test''" 7] m p
  have d: "fault_of (AddRTMPPushSession ''rtmp://127.0.0.1:1936/live/test'' 7 test_group) = None"
    and e: "fault_of (DelRTMPPushSession ''rtmp://127.0.0.1:1936/live/test'' 7 test_group) = None"
    by blast+
  from m a b c p d e show ?thesis by blast
qed

lemma pullIfNeeded_cases:
  "pullIfNeeded cfg g =
     (if pull_needed cfg g
      then (assign ''isPulling'' (\<lambda>g. g\<lparr> isPulling := True \<rparr>) g)
             \<lparr> pullTasks := pullTasks g @ [relay_url (RelayPullAddr cfg) (appName g) (streamName g)] \<rparr>
      else g)"
  by (auto simp: pullIfNeeded_def pull_needed_def Let_def assign_def)

lemma pullIfNeeded_locked:
  assumes "mutex g"
  shows "unguarded (pullIfNeeded cfg g) = unguarded g"
    and "mutex (pullIfNeeded cfg g)"
    and "isPulling (pullIfNeeded cfg g) = (isPulling g \<or> pull_needed cfg g)"
    and "pullTasks (pullIfNeeded cfg g) =
          (if pull_needed cfg g
           then pullTasks g @ [relay_url (RelayPullAddr cfg) (appName g) (streamName g)]
           else pullTasks g)"
  using assms by (auto simp: pullIfNeeded_cases assign_def)

lemma pushIfNeeded_locked:
  assumes "mutex g"
  shows "unguarded (pushIfNeeded cfg g) = unguarded g"
    and "isPulling (pushIfNeeded cfg g) = isPulling g"
    and "pullTasks (pushIfNeeded cfg g) = pullTasks g"
  using assms by (auto simp: pushIfNeeded_def assign_def Let_def)

lemma pull_needed_not_pulling: "pull_needed cfg g \<Longrightarrow> \<not> isPulling g"
  by (simp add: pull_needed_def)

lemma pull_step:
  assumes "mutex h"
  shows "unguarded (Unlock (pullIfNeeded cfg h)) = unguarded h \<and>
         (isPulling h \<longrightarrow> isPulling (Unlock (pullIfNeeded cfg h)) \<and>
                            pullTasks (Unlock (pullIfNeeded cfg h)) = pullTasks h) \<and>
         (pullTasks (Unlock (pullIfNeeded cfg h)) = pullTasks h \<or>
            (\<not> isPulling h \<and> isPulling (Unlock (pullIfNeeded cfg h)) \<and>
             length (pullTasks (Unlock (pullIfNeeded cfg h))) = length (pullTasks h) + 1))"
  using assms by (auto simp: pullIfNeeded_cases assign_def Unlock_def pull_needed_def)

lemma tick_step:
  assumes "mutex h"
  shows "unguarded (Unlock (pushIfNeeded cfg (pullIfNeeded cfg h))) = unguarded h \<and>
         (isPulling h \<longrightarrow> isPulling (Unlock (pushIfNeeded cfg (pullIfNeeded cfg h))) \<and>
                            pullTasks (Unlock (pushIfNeeded cfg (pullIfNeeded cfg h))) = pullTasks h) \<and>
         (pullTasks (Unlock (pushIfNeeded cfg (pullIfNeeded cfg h))) = pullTasks h \<or>
            (\<not> isPulling h \<and> isPulling (Unlock (pushIfNeeded cfg (pullIfNeeded cfg h))) \<and>
             length (pullTasks (Unlock (pushIfNeeded cfg (pullIfNeeded cfg h)))) = length (pullTasks h) + 1))"
proof -
  have mh: "mutex (pullIfNeeded cfg h)" using assms by (rule pullIfNeeded_locked)
  have u: "unguarded (Unlock (pushIfNeeded cfg (pullIfNeeded cfg h))) = unguarded (Unlock (pullIfNeeded cfg h))"
    "isPulling (Unlock (pushIfNeeded cfg (pullIfNeeded cfg h))) = isPulling (Unlock (pullIfNeeded cfg h))"
    "pullTasks (Unlock (pushIfNeeded cfg (pullIfNeeded cfg h))) = pullTasks (Unlock (pullIfNeeded cfg h))"
    by (simp_all add: Unlock_def pushIfNeeded_locked [OF mh])
  show ?thesis unfolding u using assms by (rule pull_step)
qed

lemma sub_or_tick_step:
  assumes "sub_or_tick c" and "exec cfg col c g = Inr g'"
  shows "unguarded g' = unguarded g \<and>
         (isPulling g \<longrightarrow> isPulling g' \<and> pullTasks g' = pullTasks g) \<and>
         (pullTasks g' = pullTasks g \<or>
            (\<not> isPulling g \<and> isPulling g' \<and> length (pullTasks g') = length (pullTasks g) + 1))"
proof (cases c)
  case CallTick
  have m: "mutex (Lock g)" by (simp add: Lock_def)
  have l: "unguarded (Lock g) = unguarded g" "isPulling (Lock g) = isPulling g"
    "pullTasks (Lock g) = pullTasks g"
    by (simp_all add: Lock_def)
  have g': "g' = Unlock (pushIfNeeded cfg (pullIfNeeded cfg (Lock g)))"
    using assms CallTick by (simp add: Tick_def)
  show ?thesis using tick_step [OF m, of cfg] unfolding g' l .
next
  case (CallAddRTMPSubSession p)
  then obtain S where S: "rtmpSubSessionSet g = Some S"
    using assms by (auto simp: AddRTMPSubSession_def Let_def Lock_def split: option.splits)
  define h where "h = assign ''rtmpSubSessionSet'' (\<lambda>g. g\<lparr> rtmpSubSessionSet := Some (insert p S) \<rparr>) (Lock g)"
  have m: "mutex h" by (simp add: h_def assign_def Lock_def)
  have l: "unguarded h = unguarded g" "isPulling h = isPulling g" "pullTasks h = pullTasks g"
    by (simp_all add: h_def assign_def Lock_def)
  have g': "g' = Unlock (pullIfNeeded cfg h)"
    using assms CallAddRTMPSubSession S by (simp add: AddRTMPSubSession_def Let_def Lock_def h_def)
  show ?thesis using pull_step [OF m, of cfg] unfolding g' l .
next
  case (CallAddHTTPFLVSubSession p)
  define g0 where "g0 = g\<lparr> httpflvSessions :=
                         (httpflvSessions g)
                           (p := WriteFLVHeader (WriteHTTPResponseHeader (httpflvSessions g p))) \<rparr>"
  from CallAddHTTPFLVSubSession obtain S where S: "httpflvSubSessionSet g = Some S"
    using assms by (auto simp: AddHTTPFLVSubSession_def Let_def Lock_def split: option.splits)
  define h where "h = assign ''httpflvSubSessionSet'' (\<lambda>g. g\<lparr> httpflvSubSessionSet := Some (insert p S) \<rparr>) (Lock g0)"
  have m: "mutex h" by (simp add: h_def assign_def Lock_def)
  have l: "unguarded h = unguarded g" "isPulling h = isPulling g" "pullTasks h = pullTasks g"
    by (simp_all add: h_def g0_def assign_def Lock_def)
  have g': "g' = Unlock (pullIfNeeded cfg h)"
    using assms CallAddHTTPFLVSubSession S
    by (simp add: AddHTTPFLVSubSession_def Let_def Lock_def h_def g0_def)
  show ?thesis using pull_step [OF m, of cfg] unfolding g' l .
qed (use assms in simp_all)

lemma sub_or_tick_run:
  assumes "\<forall>c \<in> set cs. sub_or_tick c" and "run_calls cfg col cs g = Inr g'"
  shows "unguarded g' = unguarded g \<and>
         (isPulling g \<longrightarrow> isPulling g' \<and> pullTasks g' = pullTasks g) \<and>
         (pullTasks g' = pullTasks g \<or>
            (\<not> isPulling g \<and> isPulling g' \<and> length (pullTasks g') = length (pullTasks g) + 1))"
  using assms
proof (induction cs arbitrary: g)
  case Nil
  then show ?case by simp
next
  case (Cons c cs)
  then obtain h where h: "exec cfg col c g = Inr h" and r: "run_calls cfg col cs h = Inr g'"
    by (auto split: sum.splits)
  have st: "sub_or_tick c" using Cons.prems by simp
  note a = sub_or_tick_step [OF st h]
  have b: "unguarded g' = unguarded h \<and>
         (isPulling h \<longrightarrow> isPulling g' \<and> pullTasks g' = pullTasks h) \<and>
         (pullTasks g' = pullTasks h \<or>
            (\<not> isPulling h \<and> isPulling g' \<and> length (pullTasks g') = length (pullTasks h) + 1))"
    using Cons.IH [OF _ r] Cons.prems by simp
  from a b show ?case by auto
qed

lemma isPulling_assign: "isPulling (assign field u g) = isPulling (u g)"
  by (simp add: assign_def)

lemma isPulling_Lock: "isPulling (Lock g) = isPulling g"
  by (simp add: Lock_def)

lemma isPulling_Unlock: "isPulling (Unlock g) = isPulling g"
  by (simp add: Unlock_def)

lemma isPulling_pushIfNeeded: "isPulling (pushIfNeeded cfg g) = isPulling g"
  by (simp add: pushIfNeeded_def Let_def isPulling_assign)

lemma isPulling_pullIfNeeded:
  "isPulling (pullIfNeeded cfg g) = (isPulling g \<or> pull_needed cfg g)"
  by (auto simp: pullIfNeeded_cases assign_def)

lemma isPulling_broadcastRTMP: "isPulling (broadcastRTMP cfg col m g) = isPulling g"
  by (simp add: broadcastRTMP_def Let_def isPulling_assign)

lemma isPulling_Dispose: "Dispose cfg g = Inr g' \<Longrightarrow> isPulling g' = isPulling g"
  by (auto simp: Dispose_def Let_def isPulling_assign isPulling_Lock isPulling_Unlock
           split: if_splits option.splits)

lemmas isPulling_simps = isPulling_assign isPulling_Lock isPulling_Unlock isPulling_pushIfNeeded
  isPulling_broadcastRTMP isPulling_pullIfNeeded

lemma isPulling_kept:
  assumes "\<not> is_del_pull c" and "isPulling g" and "exec cfg col c g = Inr g'"
  shows "isPulling g'"
proof (cases c)
  case CallTick
  then show ?thesis using assms
    by (auto simp: Tick_def isPulling_simps)
next
  case CallDispose
  then show ?thesis using assms by (auto dest: isPulling_Dispose)
next
  case (CallAddRTMPPubSession p)
  then show ?thesis using assms
    by (auto simp: AddRTMPPubSession_def Let_def isPulling_simps)
next
  case (CallDelRTMPPubSession p)
  then show ?thesis using assms
    by (auto simp: DelRTMPPubSession_def Let_def isPulling_simps)
next
  case (CallAddRTMPPullSession p)
  then show ?thesis using assms
    by (auto simp: AddRTMPPullSession_def Let_def isPulling_simps)
next
  case (CallDelRTMPPullSession p)
  then show ?thesis using assms by simp
next
  case (CallAddRTMPSubSession p)
  then show ?thesis using assms
    by (auto simp: AddRTMPSubSession_def Let_def isPulling_simps split: option.splits)
next
  case (CallDelRTMPSubSession p)
  then show ?thesis using assms
    by (auto simp: DelRTMPSubSession_def Let_def isPulling_simps split: option.splits)
next
  case (CallAddHTTPFLVSubSession p)
  then show ?thesis using assms
    by (auto simp: AddHTTPFLVSubSession_def Let_def isPulling_simps split: option.splits)
next
  case (CallDelHTTPFLVSubSession p)
  then show ?thesis using assms
    by (auto simp: DelHTTPFLVSubSession_def Let_def isPulling_simps split: option.splits)
next
  case (CallAddRTMPPushSession url p)
  then show ?thesis using assms
    by (auto simp: AddRTMPPushSession_def Let_def isPulling_simps split: option.splits)
next
  case (CallDelRTMPPushSession url p)
  then show ?thesis using assms
    by (auto simp: DelRTMPPushSession_def Let_def isPulling_simps split: option.splits)
next
  case (CallOnReadRTMPAVMsg m)
  then show ?thesis using assms
    by (auto simp: OnReadRTMPAVMsg_def Let_def isPulling_simps split: option.splits)
qed

text \<open>Claim C8. Over any sequence of subscriber additions and ticks that returns, at most
  one pull task is started; none is started when \<open>isPulling\<close> was already set; when one
  was started \<open>isPulling\<close> is set afterwards; and no group state was written without the
  mutex. \<open>pullIfNeeded\<close> starts a task exactly when relay pull is enabled, an RTMP or
  HTTP-FLV subscriber exists, neither a publisher nor a pull session is installed and
  \<open>isPulling\<close> is false, and it sets \<open>isPulling\<close> then. No call of the group other than
  \<open>DelRTMPPullSession\<close> resets \<open>isPulling\<close>.\<close>

theorem at_most_one_pull_task:
  "((\<forall>c \<in> set cs. sub_or_tick c) \<and> run_calls cfg col cs g = Inr g' \<longrightarrow>
      length (pullTasks g') \<le> length (pullTasks g) + 1 \<and>
      (isPulling g \<longrightarrow> pullTasks g' = pullTasks g) \<and>
      (pullTasks g' \<noteq> pullTasks g \<longrightarrow> isPulling g') \<and>
      unguarded g' = unguarded g) \<and>
   pullTasks (pullIfNeeded cfg g) =
     (if pull_needed cfg g
      then pullTasks g @ [relay_url (RelayPullAddr cfg) (appName g) (streamName g)]
      else pullTasks g) \<and>
   isPulling (pullIfNeeded cfg g) = (isPulling g \<or> pull_needed cfg g) \<and>
   (\<not> is_del_pull c \<and> isPulling g \<and> exec cfg col c g = Inr h \<longrightarrow> isPulling h)"
proof (intro conjI impI)
  assume a: "(\<forall>c \<in> set cs. sub_or_tick c) \<and> run_calls cfg col cs g = Inr g'"
  then have r: "unguarded g' = unguarded g \<and>
         (isPulling g \<longrightarrow> isPulling g' \<and> pullTasks g' = pullTasks g) \<and>
         (pullTasks g' = pullTasks g \<or>
            (\<not> isPulling g \<and> isPulling g' \<and> length (pullTasks g') = length (pullTasks g) + 1))"
    using sub_or_tick_run by blast
  from r show "length (pullTasks g') \<le> length (pullTasks g) + 1" by auto
  from r show "unguarded g' = unguarded g" by simp
  { assume "isPulling g" with r show "pullTasks g' = pullTasks g" by simp }
  { assume "pullTasks g' \<noteq> pullTasks g" with r show "isPulling g'" by auto }
next
  show "pullTasks (pullIfNeeded cfg g) =
     (if pull_needed cfg g
      then pullTasks g @ [relay_url (RelayPullAddr cfg) (appName g) (streamName g)]
      else pullTasks g)"
    by (auto simp: pullIfNeeded_cases assign_def)
  show "isPulling (pullIfNeeded cfg g) = (isPulling g \<or> pull_needed cfg g)"
    by (auto simp: pullIfNeeded_cases assign_def)
next
  assume "\<not> is_del_pull c \<and> isPulling g \<and> exec cfg col c g = Inr h"
  then show "isPulling h" using isPulling_kept by blast
qed

lemma run_subscriber_calls:
  "\<exists>g'. run_calls relay_config plain_collab subscriber_calls test_group = Inr g' \<and>
        pullTasks g' = [''rtmp://127.0.0.1:1937/live/test'']"
  by (simp add: subscriber_calls_def test_group_def relay_config_def NewGroup_def
        Tick_def AddRTMPSubSession_def AddHTTPFLVSubSession_def Let_def Lock_def Unlock_def
        assign_def pullIfNeeded_def pushIfNeeded_def members_def relay_url_def proxies_def)

text \<open>Two RTMP subscribers, one HTTP-FLV subscriber and two ticks on \<open>test_group\<close>: one
  pull task.\<close>

theorem at_most_one_pull_task_witness:
  "list_all sub_or_tick subscriber_calls \<and>
   (\<exists>g'. run_calls relay_config plain_collab subscriber_calls test_group = Inr g' \<and>
         pullTasks g' = [''rtmp://127.0.0.1:1937/live/test''] \<and>
         length (pullTasks g') \<le> length (pullTasks test_group) + 1 \<and>
         isPulling g' \<and>
         unguarded g' = unguarded test_group)"
proof -
  have s: "\<forall>c \<in> set subscriber_calls. sub_or_tick c"
    by (simp add: subscriber_calls_def)
  then have s': "list_all sub_or_tick subscriber_calls"
    by (simp add: list_all_iff)
  obtain g' where r: "run_calls relay_config plain_collab subscriber_calls test_group = Inr g'"
    and t: "pullTasks g' = [''rtmp://127.0.0.1:1937/live/test'']"
    using run_subscriber_calls by blast
  have ne: "pullTasks g' \<noteq> pullTasks test_group"
    using t by (simp add: test_group_def NewGroup_def)
  from at_most_one_pull_task [of subscriber_calls relay_config plain_collab test_group g'] s r ne
  have "length (pullTasks g') \<le> length (pullTasks test_group) + 1 \<and> isPulling g' \<and>
        unguarded g' = unguarded test_group"
    by blast
  with s' r t show ?thesis by blast
qed

end
